theory Spec2Isabelle
  imports Complex_Main "HOL-Library.Option_ord" "HOL-Library.Multiset"
    "HOL-Library.Char_ord" "HOL-Library.List_Lexorder" "HOL-Library.Log_Nat"
begin

section \<open>Data model\<close>

text \<open>
  A row of the \<open>deployments\<close> table, with the column names of the schema in
  \<open>initializeSchema\<close>. Every column is \<open>NOT NULL\<close>. A \<open>TIMESTAMP\<close> is the
  number of microseconds since the epoch; \<open>duration_minutes\<close> is an \<open>INTEGER\<close>.
\<close>

record Deployment =
  deployment_id :: string
  team :: string
  service :: string
  timestamp :: int
  duration_minutes :: int
  status :: string
  environment :: string
  commit_hash :: string

text \<open>
  The structs \<open>TeamMetrics\<close> and \<open>DailyMetrics\<close>. A Go \<open>float64\<close>, like a
  \<open>DOUBLE\<close> of the store, is the rational number it stands for; \<open>float64\<close> below
  rounds the result of every operation to such a number. The field \<open>Team\<close> of
  \<open>DailyMetrics\<close> is \<open>DailyTeam\<close> here, and its \<open>Date\<close> is kept as the day number
  that the source prints as \<open>2006-01-02\<close>.
\<close>

record TeamMetrics =
  Team :: string
  TotalDeployments :: int
  SuccessfulDeployments :: int
  SuccessRate :: rat
  AvgDurationMinutes :: rat
  DeploymentFrequency :: rat

record DailyMetrics =
  Date :: int
  DailyTeam :: string
  Deployments :: int
  Successful :: int
  AvgDuration :: rat

text \<open>
  The errors the service returns (\<open>query failed\<close>, \<open>scan failed\<close>,
  \<open>aggregation query failed\<close>), and the statements it sends to the store. Whether
  the store executes a statement is decided by the environment: every function
  below takes a predicate \<open>ok\<close> on statements, and \<open>ok q\<close> means that the store
  executes \<open>q\<close> without error. \<open>DailyMetricsQuery p n\<close> is the query of
  \<open>GetDailyMetrics\<close> with the bound parameter \<open>p\<close> and the text of \<open>n\<close> spliced
  into its interval.
\<close>

datatype error = QueryFailed | ScanFailed | AggregationFailed

datatype stmt =
    TeamMetricsQuery
  | DailyMetricsQuery "string option" int
  | CreateDailyTeamSummary
  | CreateTeamRankings

section \<open>SQL expressions\<close>

text \<open>A nullable SQL value is an \<open>option\<close>: \<open>None\<close> is \<open>NULL\<close>.\<close>

definition sql_count :: "'a list \<Rightarrow> int" where
  \<comment> \<open>\<open>COUNT(*)\<close>\<close>
  "sql_count rows = int (length rows)"

definition sql_sum :: "int list \<Rightarrow> int option" where
  \<comment> \<open>\<open>SUM\<close>: \<open>NULL\<close> over no rows\<close>
  "sql_sum xs = (if xs = [] then None else Some (sum_list xs))"

text \<open>
  Binary64 arithmetic. \<open>exponent x\<close> is the binary exponent of a positive \<open>x\<close>, the
  \<open>e\<close> with \<open>2 powi e \<le> x < 2 powi (e + 1)\<close>; \<open>rne\<close> rounds to the nearest integer,
  a half to the even one; \<open>float64 x\<close> is the number with 53 significant bits nearest
  to \<open>x\<close>. The range of the exponent is not modelled: the percentages, means and
  counts of this service are far inside it.
\<close>

definition exponent :: "rat \<Rightarrow> int" where
  "exponent x =
     (let (a, b) = quotient_of x; e = bitlen a - bitlen b
      in if 2 powi e \<le> x then e else e - 1)"

definition rne :: "rat \<Rightarrow> int" where
  "rne y =
     (let n = \<lfloor>y\<rfloor>; r = y - of_int n
      in if r < 1 / 2 then n else if 1 / 2 < r then n + 1 else if even n then n else n + 1)"

definition float64 :: "rat \<Rightarrow> rat" where
  "float64 x =
     (if x = 0 then 0
      else (let u = 2 powi (exponent \<bar>x\<bar> - 52) in of_int (rne (x / u)) * u))"

definition sql_avg :: "int option list \<Rightarrow> rat option" where
  \<comment> \<open>\<open>AVG\<close> skips \<open>NULL\<close>s and is \<open>NULL\<close> when nothing is left; the sum and the
      count are exact integers, their quotient is a \<open>DOUBLE\<close>\<close>
  "sql_avg vs =
     (let xs = [x. Some x \<leftarrow> vs]
      in if xs = [] then None
         else Some (float64 (float64 (of_int (sum_list xs)) / float64 (of_int (int (length xs))))))"

definition sql_div :: "rat option \<Rightarrow> rat option \<Rightarrow> rat option" where
  \<comment> \<open>\<open>x / y\<close>: both operands become \<open>DOUBLE\<close>s; \<open>NULL\<close> when an operand is \<open>NULL\<close>
      or the divisor is zero\<close>
  "sql_div x y =
     (case (x, y) of
        (Some a, Some b) \<Rightarrow>
          if float64 b = 0 then None else Some (float64 (float64 a / float64 b))
      | _ \<Rightarrow> None)"

definition round_half_away :: "rat \<Rightarrow> int" where
  \<comment> \<open>the nearest integer, a half away from zero\<close>
  "round_half_away y = (if 0 \<le> y then \<lfloor>y + 1 / 2\<rfloor> else - \<lfloor>- y + 1 / 2\<rfloor>)"

definition round2 :: "rat \<Rightarrow> rat" where
  \<comment> \<open>\<open>ROUND(x, 2)\<close> of a \<open>DOUBLE\<close>: \<open>x\<close> times 100, rounded to an integer, divided by
      100, all in binary64\<close>
  "round2 x = float64 (of_int (round_half_away (float64 (x * 100))) / 100)"

definition sql_round2 :: "rat option \<Rightarrow> rat option" where
  "sql_round2 x = map_option round2 x"

text \<open>
  The rounding of the specification's formula \<open>round(100 * successful / total, 2)\<close>
  read over the exact numbers, to compare \<open>round2\<close> with: the nearest multiple of
  one hundredth, a half away from zero.
\<close>

definition decimal_round2 :: "rat \<Rightarrow> rat" where
  "decimal_round2 x = of_int (round_half_away (x * 100)) / 100"

definition is_success :: "Deployment \<Rightarrow> bool" where
  \<comment> \<open>\<open>status = 'success'\<close>\<close>
  "is_success d = (status d = ''success'')"

text \<open>
  \<open>ORDER BY key DESC\<close>: an insertion sort into descending order. With
  \<open>Option_ord\<close>, \<open>None\<close> is below every \<open>Some\<close>, so \<open>NULL\<close>s come last.
\<close>

fun insert_desc :: "('r \<Rightarrow> 'k::linorder) \<Rightarrow> 'r \<Rightarrow> 'r list \<Rightarrow> 'r list" where
  "insert_desc key x [] = [x]"
| "insert_desc key x (y # ys) =
     (if key y \<le> key x then x # y # ys else y # insert_desc key x ys)"

definition order_by_desc :: "('r \<Rightarrow> 'k::linorder) \<Rightarrow> 'r list \<Rightarrow> 'r list" where
  "order_by_desc key rows = foldr (insert_desc key) rows []"

section \<open>GetTeamMetrics\<close>

record team_row =
  r_team :: string
  r_total_deployments :: int
  r_successful_deployments :: "int option"
  r_success_rate :: "rat option"
  r_avg_duration :: "rat option"
  r_deployments_per_day :: "rat option"

definition team_group :: "Deployment list \<Rightarrow> string \<Rightarrow> team_row" where
  \<comment> \<open>the select list of the query of \<open>GetTeamMetrics\<close> over the group of team \<open>t\<close>\<close>
  "team_group ds t =
     (let g = filter (\<lambda>d. team d = t) ds;
          successes = sql_sum (map (\<lambda>d. if is_success d then 1 else 0) g)
      in \<lparr> r_team = t,
           r_total_deployments = sql_count g,
           r_successful_deployments = successes,
           r_success_rate =
             sql_round2 (sql_div (map_option (\<lambda>s. 100 * of_int s) successes)
                                 (Some (of_int (sql_count g)))),
           r_avg_duration =
             sql_round2 (sql_avg (map (\<lambda>d. if is_success d then Some (duration_minutes d) else None) g)),
           r_deployments_per_day =
             sql_round2 (sql_div (Some (of_int (sql_count g) * 1)) (Some 7)) \<rparr>)"

definition team_metrics_query :: "Deployment list \<Rightarrow> team_row list" where
  \<comment> \<open>\<open>GROUP BY team ORDER BY success_rate DESC\<close>\<close>
  "team_metrics_query ds =
     order_by_desc r_success_rate (map (team_group ds) (remdups (map team ds)))"

definition scan_int :: "int option \<Rightarrow> error + int" where
  \<comment> \<open>\<open>rows.Scan\<close> into an \<open>int\<close>: a \<open>NULL\<close> cannot be converted\<close>
  "scan_int v = (case v of None \<Rightarrow> Inl ScanFailed | Some n \<Rightarrow> Inr n)"

definition scan_float :: "rat option \<Rightarrow> error + rat" where
  \<comment> \<open>\<open>rows.Scan\<close> into a \<open>float64\<close>: a \<open>NULL\<close> cannot be converted\<close>
  "scan_float v = (case v of None \<Rightarrow> Inl ScanFailed | Some x \<Rightarrow> Inr x)"

definition scan_team_row :: "team_row \<Rightarrow> error + TeamMetrics" where
  \<comment> \<open>\<open>rows.Scan\<close> into the fields of a \<open>TeamMetrics\<close>, column by column\<close>
  "scan_team_row r =
     (case scan_int (r_successful_deployments r) of Inl e \<Rightarrow> Inl e | Inr s \<Rightarrow>
     (case scan_float (r_success_rate r) of Inl e \<Rightarrow> Inl e | Inr p \<Rightarrow>
     (case scan_float (r_avg_duration r) of Inl e \<Rightarrow> Inl e | Inr a \<Rightarrow>
     (case scan_float (r_deployments_per_day r) of Inl e \<Rightarrow> Inl e | Inr f \<Rightarrow>
        Inr \<lparr> Team = r_team r, TotalDeployments = r_total_deployments r,
              SuccessfulDeployments = s, SuccessRate = p,
              AvgDurationMinutes = a, DeploymentFrequency = f \<rparr>))))"

fun scan_team_rows :: "team_row list \<Rightarrow> TeamMetrics list \<Rightarrow> error + TeamMetrics list" where
  "scan_team_rows [] metrics = Inr metrics"
| "scan_team_rows (r # rs) metrics =
     (case scan_team_row r of
        Inl e \<Rightarrow> Inl e
      | Inr tm \<Rightarrow> scan_team_rows rs (metrics @ [tm]))"

definition GetTeamMetrics :: "(stmt \<Rightarrow> bool) \<Rightarrow> Deployment list \<Rightarrow> error + TeamMetrics list" where
  "GetTeamMetrics ok ds =
     (if \<not> ok TeamMetricsQuery then Inl QueryFailed
      else scan_team_rows (team_metrics_query ds) [])"

section \<open>GetDailyMetrics\<close>

definition usec_per_day :: int where
  "usec_per_day = 86400000000"

definition date_trunc_day :: "int \<Rightarrow> int" where
  \<comment> \<open>\<open>DATE_TRUNC('day', timestamp)\<close>, as a day number\<close>
  "date_trunc_day ts = ts div usec_per_day"

record daily_row =
  r_date :: int
  r_day_team :: string
  r_deployments :: int
  r_successful :: "int option"
  r_avg :: "rat option"

definition in_window :: "string option \<Rightarrow> int \<Rightarrow> int \<Rightarrow> Deployment \<Rightarrow> bool" where
  \<comment> \<open>the \<open>WHERE\<close> clause; \<open>today\<close> is \<open>CURRENT_DATE\<close> as a day number\<close>
  "in_window p today days d =
     ((case p of None \<Rightarrow> True | Some t \<Rightarrow> team d = t)
      \<and> timestamp d \<ge> (today - days) * usec_per_day)"

definition daily_group :: "Deployment list \<Rightarrow> int \<times> string \<Rightarrow> daily_row" where
  "daily_group ds k =
     (let g = filter (\<lambda>d. (date_trunc_day (timestamp d), team d) = k) ds
      in \<lparr> r_date = fst k,
           r_day_team = snd k,
           r_deployments = sql_count g,
           r_successful = sql_sum (map (\<lambda>d. if is_success d then 1 else 0) g),
           r_avg = sql_round2 (sql_avg (map (\<lambda>d. Some (duration_minutes d)) g)) \<rparr>)"

definition daily_metrics_query :: "string option \<Rightarrow> int \<Rightarrow> int \<Rightarrow> Deployment list \<Rightarrow> daily_row list" where
  \<comment> \<open>\<open>GROUP BY DATE_TRUNC('day', timestamp), team ORDER BY date DESC, team\<close>\<close>
  "daily_metrics_query p today days ds =
     (let w = filter (in_window p today days) ds
      in order_by_desc r_date
           (sort_key r_day_team
              (map (daily_group w) (remdups (map (\<lambda>d. (date_trunc_day (timestamp d), team d)) w)))))"

definition scan_daily_row :: "daily_row \<Rightarrow> error + DailyMetrics" where
  "scan_daily_row r =
     (case scan_int (r_successful r) of Inl e \<Rightarrow> Inl e | Inr s \<Rightarrow>
     (case scan_float (r_avg r) of Inl e \<Rightarrow> Inl e | Inr a \<Rightarrow>
        Inr \<lparr> Date = r_date r, DailyTeam = r_day_team r, Deployments = r_deployments r,
              Successful = s, AvgDuration = a \<rparr>))"

fun scan_daily_rows :: "daily_row list \<Rightarrow> DailyMetrics list \<Rightarrow> error + DailyMetrics list" where
  "scan_daily_rows [] metrics = Inr metrics"
| "scan_daily_rows (r # rs) metrics =
     (case scan_daily_row r of
        Inl e \<Rightarrow> Inl e
      | Inr dm \<Rightarrow> scan_daily_rows rs (metrics @ [dm]))"

definition GetDailyMetrics ::
  "(stmt \<Rightarrow> bool) \<Rightarrow> int \<Rightarrow> Deployment list \<Rightarrow> string \<Rightarrow> int \<Rightarrow> error + DailyMetrics list" where
  "GetDailyMetrics ok today ds team_arg days =
     (let teamParam = (if team_arg \<noteq> [] then Some team_arg else None)
      in if \<not> ok (DailyMetricsQuery teamParam days) then Inl QueryFailed
         else scan_daily_rows (daily_metrics_query teamParam today days ds) [])"

section \<open>The handler of \<open>/metrics/daily\<close>\<close>

text \<open>
  \<open>strconv.Atoi\<close> of the Go library, for a 64-bit \<open>int\<close>: an optional sign, then
  one or more decimal digits; anything else, or a value out of range, is an error.
\<close>

definition digit :: "char \<Rightarrow> int option" where
  "digit c = (let n = (of_char c :: int) in if 48 \<le> n \<and> n \<le> 57 then Some (n - 48) else None)"

fun digits :: "string \<Rightarrow> int \<Rightarrow> int option" where
  "digits [] n = Some n"
| "digits (c # cs) n = (case digit c of None \<Rightarrow> None | Some k \<Rightarrow> digits cs (n * 10 + k))"

definition unsigned :: "string \<Rightarrow> string" where
  \<comment> \<open>the text after an optional leading sign\<close>
  "unsigned s = (if s \<noteq> [] \<and> (hd s = CHR ''-'' \<or> hd s = CHR ''+'') then tl s else s)"

definition Atoi :: "string \<Rightarrow> int option" where
  "Atoi s =
     (let neg = (s \<noteq> [] \<and> hd s = CHR ''-'');
          body = unsigned s
      in if body = [] then None
         else (case digits body 0 of
                 None \<Rightarrow> None
               | Some n \<Rightarrow>
                   (let v = (if neg then - n else n)
                    in if - (2 ^ 63) \<le> v \<and> v \<le> 2 ^ 63 - 1 then Some v else None)))"

definition DefaultQuery :: "string option \<Rightarrow> string \<Rightarrow> string" where
  \<comment> \<open>the value of a query parameter, or the default when the parameter is absent\<close>
  "DefaultQuery q dflt = (case q of None \<Rightarrow> dflt | Some v \<Rightarrow> v)"

definition getDailyMetrics_days :: "string option \<Rightarrow> int" where
  \<comment> \<open>the variable \<open>days\<close> of \<open>getDailyMetrics\<close> when it calls \<open>GetDailyMetrics\<close>\<close>
  "getDailyMetrics_days q =
     (let daysStr = DefaultQuery q ''30''
      in case Atoi daysStr of None \<Rightarrow> 30 | Some n \<Rightarrow> n)"

datatype response = StatusOK "DailyMetrics list" | StatusInternalServerError error

definition getDailyMetrics ::
  "(stmt \<Rightarrow> bool) \<Rightarrow> int \<Rightarrow> Deployment list \<Rightarrow> string option \<Rightarrow> string option \<Rightarrow> response" where
  "getDailyMetrics ok today ds team_q days_q =
     (let team_arg = DefaultQuery team_q [];
          days = getDailyMetrics_days days_q
      in case GetDailyMetrics ok today ds team_arg days of
           Inl e \<Rightarrow> StatusInternalServerError e
         | Inr metrics \<Rightarrow> StatusOK metrics)"

section \<open>aggregateMetrics\<close>

record summary_row =
  s_date :: int
  s_team :: string
  s_total_deployments :: int
  s_successful_deployments :: int
  s_avg_duration_minutes :: "rat option"

definition summary_group :: "Deployment list \<Rightarrow> int \<times> string \<Rightarrow> summary_row" where
  "summary_group ds k =
     (let g = filter (\<lambda>d. (date_trunc_day (timestamp d), team d) = k) ds
      in \<lparr> s_date = fst k,
           s_team = snd k,
           s_total_deployments = sql_count g,
           s_successful_deployments = sql_count (filter is_success g),
           s_avg_duration_minutes = sql_round2 (sql_avg (map (\<lambda>d. Some (duration_minutes d)) g)) \<rparr>)"

text \<open>
  Neither \<open>CREATE OR REPLACE TABLE\<close> statement has an \<open>ORDER BY\<close>: the order in which
  the store emits the groups, and so the order of the rows of the table, is the
  store's choice at each execution. \<open>arrange p rows\<close> is the rows in the order \<open>p\<close> of
  their positions; a \<open>p\<close> that is not a permutation of the positions leaves the rows
  as they are.
\<close>

definition arrange :: "nat list \<Rightarrow> 'a list \<Rightarrow> 'a list" where
  "arrange p rows = (if sort p = [0..<length rows] then map (\<lambda>i. rows ! i) p else rows)"

definition daily_team_summary_query :: "nat list \<Rightarrow> Deployment list \<Rightarrow> summary_row list" where
  \<comment> \<open>\<open>p\<close>: the order in which the store emits the groups\<close>
  "daily_team_summary_query p ds =
     arrange p
       (map (summary_group ds) (remdups (map (\<lambda>d. (date_trunc_day (timestamp d), team d)) ds)))"

text \<open>
  \<open>RANK() OVER (ORDER BY key DESC)\<close>: the rows are put in the order of the window,
  and the rank of a row is one more than the number of rows before it that are not
  its peers (rows with the same key are peers).
\<close>

definition sql_rank :: "'k list \<Rightarrow> nat \<Rightarrow> int" where
  \<comment> \<open>\<open>ks\<close>: the keys of the rows in window order; \<open>i\<close>: the position of the row\<close>
  "sql_rank ks i = 1 + int (length (filter (\<lambda>k. k \<noteq> ks ! i) (take i ks)))"

definition rank_over :: "('r \<Rightarrow> 'k::linorder) \<Rightarrow> 'r list \<Rightarrow> ('r \<times> int) list" where
  "rank_over key rows =
     (let w = order_by_desc key rows
      in map (\<lambda>i. (w ! i, sql_rank (map key w) i)) [0..<length w])"

definition success_key :: "Deployment list \<Rightarrow> string \<Rightarrow> rat option" where
  \<comment> \<open>\<open>COUNT(*) FILTER (WHERE status = 'success') * 100.0 / COUNT(*)\<close> of team \<open>t\<close>\<close>
  "success_key ds t =
     (let g = filter (\<lambda>d. team d = t) ds
      in sql_div (Some (of_int (sql_count (filter is_success g)) * 100))
                 (Some (of_int (sql_count g))))"

definition velocity_key :: "Deployment list \<Rightarrow> string \<Rightarrow> int" where
  \<comment> \<open>\<open>COUNT(*)\<close> of team \<open>t\<close>\<close>
  "velocity_key ds t = sql_count (filter (\<lambda>d. team d = t) ds)"

record ranking_row =
  k_team :: string
  success_rank :: int
  velocity_rank :: int

definition team_rankings_query :: "nat list \<Rightarrow> Deployment list \<Rightarrow> ranking_row list" where
  \<comment> \<open>\<open>p\<close>: the order in which the store emits the rows\<close>
  "team_rankings_query p ds =
     (let groups = remdups (map team ds);
          w1 = rank_over (success_key ds) groups;
          w2 = rank_over (\<lambda>(t, sr). velocity_key ds t) w1
      in arrange p
           (map (\<lambda>((t, sr), vr). \<lparr> k_team = t, success_rank = sr, velocity_rank = vr \<rparr>) w2))"

text \<open>
  The dense rank of the specification's glossary, to compare \<open>RANK()\<close> with: tied
  values receive the same rank and the next distinct value gets the immediately
  following rank, so the rank of \<open>k\<close> is one more than the number of distinct
  values above it.
\<close>

definition dense_rank :: "'k::linorder list \<Rightarrow> 'k \<Rightarrow> int" where
  "dense_rank ks k = 1 + int (length (remdups (filter (\<lambda>x. k < x) ks)))"

text \<open>
  The store: the raw table and the two derived tables (\<open>None\<close> while a derived
  table does not exist). \<open>CREATE OR REPLACE TABLE ... AS\<close> is one statement: it
  replaces its table, or fails and changes nothing. Beside \<open>ok\<close>, the environment
  gives the order \<open>lay q\<close> in which the store emits the rows of statement \<open>q\<close> in
  this execution.
\<close>

record store =
  deployments :: "Deployment list"
  daily_team_summary :: "summary_row list option"
  team_rankings :: "ranking_row list option"

definition Exec :: "(stmt \<Rightarrow> bool) \<Rightarrow> (stmt \<Rightarrow> nat list) \<Rightarrow> stmt \<Rightarrow> store \<Rightarrow> store option" where
  "Exec ok lay q s =
     (if \<not> ok q then None
      else (case q of
              CreateDailyTeamSummary \<Rightarrow>
                Some (s\<lparr>daily_team_summary := Some (daily_team_summary_query (lay q) (deployments s))\<rparr>)
            | CreateTeamRankings \<Rightarrow>
                Some (s\<lparr>team_rankings := Some (team_rankings_query (lay q) (deployments s))\<rparr>)
            | _ \<Rightarrow> Some s))"

fun run_queries ::
  "(stmt \<Rightarrow> bool) \<Rightarrow> (stmt \<Rightarrow> nat list) \<Rightarrow> stmt list \<Rightarrow> store \<Rightarrow> error option \<times> store" where
  "run_queries ok lay [] s = (None, s)"
| "run_queries ok lay (q # qs) s =
     (case Exec ok lay q s of
        None \<Rightarrow> (Some AggregationFailed, s)
      | Some s' \<Rightarrow> run_queries ok lay qs s')"

definition aggregateMetrics ::
  "(stmt \<Rightarrow> bool) \<Rightarrow> (stmt \<Rightarrow> nat list) \<Rightarrow> store \<Rightarrow> error option \<times> store" where
  \<comment> \<open>the error returned, if any, and the store afterwards\<close>
  "aggregateMetrics ok lay s = run_queries ok lay [CreateDailyTeamSummary, CreateTeamRankings] s"

section \<open>Example data\<close>

definition dep :: "string \<Rightarrow> string \<Rightarrow> int \<Rightarrow> int \<Rightarrow> string \<Rightarrow> Deployment" where
  \<comment> \<open>a deployment row: identifier, team, timestamp, duration, status\<close>
  "dep i t ts dur st =
     \<lparr> deployment_id = i, team = t, service = ''api'', timestamp = ts,
       duration_minutes = dur, status = st, environment = ''prod'', commit_hash = ''c0ffee'' \<rparr>"

definition healthy :: "stmt \<Rightarrow> bool" where
  \<comment> \<open>a store that executes every statement\<close>
  "healthy q = True"

definition alpha_beta :: "Deployment list" where
  \<comment> \<open>three deployments of alpha (two successful) and one of beta\<close>
  "alpha_beta =
     [dep ''d1'' ''alpha'' 0 10 ''success'', dep ''d2'' ''alpha'' 0 20 ''success'',
      dep ''d3'' ''alpha'' 0 30 ''failed'', dep ''d4'' ''beta'' 0 5 ''success'']"

definition alpha_metrics :: TeamMetrics where
  "alpha_metrics =
     \<lparr> Team = ''alpha'', TotalDeployments = 3, SuccessfulDeployments = 2,
       SuccessRate = float64 (6667 / 100), AvgDurationMinutes = 15,
       DeploymentFrequency = float64 (43 / 100) \<rparr>"

definition beta_metrics :: TeamMetrics where
  "beta_metrics =
     \<lparr> Team = ''beta'', TotalDeployments = 1, SuccessfulDeployments = 1,
       SuccessRate = 100, AvgDurationMinutes = 5, DeploymentFrequency = float64 (14 / 100) \<rparr>"

definition only_failed :: "Deployment list" where
  \<comment> \<open>one team whose only deployment failed\<close>
  "only_failed = [dep ''d1'' ''alpha'' 0 10 ''failed'']"

definition mixed_teams :: "Deployment list" where
  \<comment> \<open>alpha has a successful deployment, beta has only a failed one\<close>
  "mixed_teams = [dep ''d1'' ''alpha'' 0 10 ''success'', dep ''d2'' ''beta'' 0 20 ''failed'']"

definition today_deployment :: "Deployment list" where
  \<comment> \<open>one deployment, five microseconds after midnight of day 100\<close>
  "today_deployment = [dep ''d1'' ''alpha'' (100 * usec_per_day + 5) 10 ''success'']"

definition tomorrow_deployment :: "Deployment list" where
  \<comment> \<open>one deployment on day 101\<close>
  "tomorrow_deployment = [dep ''d1'' ''alpha'' (101 * usec_per_day) 10 ''success'']"

definition old_deployment :: "Deployment list" where
  \<comment> \<open>one deployment on day 50\<close>
  "old_deployment = [dep ''d1'' ''alpha'' (50 * usec_per_day) 10 ''success'']"

definition tied_teams :: "Deployment list" where
  \<comment> \<open>a and b tie with two successful deployments each, c has one failed deployment\<close>
  "tied_teams =
     [dep ''d1'' ''a'' 0 10 ''success'', dep ''d2'' ''a'' 0 20 ''success'',
      dep ''d3'' ''b'' 0 30 ''success'', dep ''d4'' ''b'' 0 5 ''success'',
      dep ''d5'' ''c'' 0 5 ''failed'']"

definition rankings_fail :: "stmt \<Rightarrow> bool" where
  \<comment> \<open>a store that fails on the statement that creates \<open>team_rankings\<close>\<close>
  "rankings_fail q = (q \<noteq> CreateTeamRankings)"

definition stale :: store where
  \<comment> \<open>derived tables computed while \<open>deployments\<close> was empty, then one row loaded\<close>
  "stale = \<lparr> deployments = only_failed, daily_team_summary = Some [], team_rankings = Some [] \<rparr>"

definition c_row :: ranking_row where
  "c_row = \<lparr> k_team = ''c'', success_rank = 3, velocity_rank = 3 \<rparr>"

definition single :: "stmt \<Rightarrow> nat list" where
  \<comment> \<open>the only order of one row\<close>
  "single q = [0]"

definition forward :: "stmt \<Rightarrow> nat list" where
  \<comment> \<open>two rows, emitted first row first\<close>
  "forward q = [0, 1]"

definition backward :: "stmt \<Rightarrow> nat list" where
  \<comment> \<open>two rows, emitted second row first\<close>
  "backward q = [1, 0]"

definition fresh :: store where
  \<comment> \<open>the rows of \<open>alpha_beta\<close> loaded, no derived table yet\<close>
  "fresh = \<lparr> deployments = alpha_beta, daily_team_summary = None, team_rankings = None \<rparr>"

definition many_alpha :: "Deployment list" where
  \<comment> \<open>4000 deployments of alpha, 41 of them successful\<close>
  "many_alpha =
     map (\<lambda>i. dep (replicate (Suc i) (CHR ''s'')) ''alpha'' 0 10 ''success'') [0..<41]
     @ map (\<lambda>i. dep (replicate (Suc i) (CHR ''f'')) ''alpha'' 0 10 ''failed'') [0..<3959]"

definition many_alpha_metrics :: TeamMetrics where
  "many_alpha_metrics =
     \<lparr> Team = ''alpha'', TotalDeployments = 4000, SuccessfulDeployments = 41,
       SuccessRate = float64 (102 / 100), AvgDurationMinutes = 10,
       DeploymentFrequency = float64 (57143 / 100) \<rparr>"

section \<open>Binary64 rounding\<close>

lemma bitlen_powi:
  assumes "0 < a"
  shows "(2::rat) powi (bitlen a - 1) \<le> of_int a" and "of_int a < (2::rat) powi bitlen a"
proof -
  from assms have l: "1 \<le> bitlen a" by (auto simp: bitlen_alt_def)
  from bitlen_bounds [OF assms] have "2 ^ nat (bitlen a - 1) \<le> a" and "a < 2 ^ nat (bitlen a)"
    by simp_all
  then have "(of_int (2 ^ nat (bitlen a - 1)) :: rat) \<le> of_int a"
    and "(of_int a :: rat) < of_int (2 ^ nat (bitlen a))"
    by (simp_all only: of_int_le_iff of_int_less_iff)
  then show "(2::rat) powi (bitlen a - 1) \<le> of_int a" and "of_int a < (2::rat) powi bitlen a"
    using l by (simp_all add: power_int_def)
qed

lemma exponent_bounds:
  assumes "0 < x"
  shows "2 powi exponent x \<le> x" and "x < 2 powi (exponent x + 1)"
proof -
  obtain a b where q: "quotient_of x = (a, b)" by (cases "quotient_of x")
  then have b: "0 < b" and x: "x = of_int a / of_int b"
    by (simp_all add: quotient_of_denom_pos quotient_of_div)
  with assms have a: "0 < a" by (simp add: zero_less_divide_iff)
  let ?e = "bitlen a - bitlen b"
  have e: "exponent x = (if 2 powi ?e \<le> x then ?e else ?e - 1)"
    by (simp add: exponent_def q)
  have bpos: "(0::rat) < of_int b" using b by simp
  have lo: "(2::rat) powi (?e - 1) \<le> x"
  proof -
    have "(2::rat) powi (?e - 1) * of_int b \<le> 2 powi (?e - 1) * 2 powi bitlen b"
      using bitlen_powi(2) [OF b] by (simp add: less_imp_le)
    also have "\<dots> = 2 powi (bitlen a - 1)"
      by (simp add: power_int_add [symmetric])
    also have "\<dots> \<le> of_int a" by (rule bitlen_powi(1) [OF a])
    finally show ?thesis using bpos by (simp add: x pos_le_divide_eq)
  qed
  have hi: "x < (2::rat) powi (?e + 1)"
  proof -
    have "of_int a < (2::rat) powi bitlen a" by (rule bitlen_powi(2) [OF a])
    also have "\<dots> = 2 powi (?e + 1) * 2 powi (bitlen b - 1)"
      by (simp add: power_int_add [symmetric])
    also have "\<dots> \<le> 2 powi (?e + 1) * of_int b"
      using bitlen_powi(1) [OF b] by simp
    finally show ?thesis using bpos by (simp add: x pos_divide_less_eq)
  qed
  show "2 powi exponent x \<le> x" using lo by (simp add: e)
  show "x < 2 powi (exponent x + 1)"
  proof (cases "2 powi ?e \<le> x")
    case True
    with hi show ?thesis by (simp add: e)
  next
    case False
    then show ?thesis by (simp add: e)
  qed
qed

lemma rne_le: "y \<le> of_int N \<Longrightarrow> rne y \<le> N"
proof -
  assume y: "y \<le> of_int N"
  then have f: "\<lfloor>y\<rfloor> \<le> N" by (simp add: floor_le_iff)
  show ?thesis
  proof (cases "\<lfloor>y\<rfloor> = N")
    case True
    with y have "y - of_int \<lfloor>y\<rfloor> \<le> 0" by simp
    then have "y - of_int \<lfloor>y\<rfloor> < 1 / 2" by simp
    with True show ?thesis by (simp add: rne_def Let_def)
  next
    case False
    with f have "\<lfloor>y\<rfloor> + 1 \<le> N" by simp
    then show ?thesis by (simp add: rne_def Let_def)
  qed
qed

lemma rne_ge: "of_int N \<le> y \<Longrightarrow> N \<le> rne y"
proof -
  assume "of_int N \<le> y"
  then have "N \<le> \<lfloor>y\<rfloor>" by (simp add: le_floor_iff)
  then show ?thesis by (simp add: rne_def Let_def)
qed

lemma rne_of_int: "rne (of_int n) = n"
  by (simp add: rne_def Let_def)

lemma float64_nonneg: "0 \<le> x \<Longrightarrow> 0 \<le> float64 x"
proof (cases "x = 0")
  case True
  then show ?thesis by (simp add: float64_def)
next
  case False
  assume "0 \<le> x"
  let ?u = "(2::rat) powi (exponent \<bar>x\<bar> - 52)"
  have u: "0 < ?u" by simp
  with \<open>0 \<le> x\<close> have "of_int 0 \<le> x / ?u" by simp
  then have "0 \<le> rne (x / ?u)" by (rule rne_ge)
  with u False show ?thesis by (simp add: float64_def Let_def)
qed

lemma grid:
  assumes "0 < x" and "x < 2 ^ 53"
  shows "\<exists>k::nat. 2 ^ k * (2::rat) powi (exponent \<bar>x\<bar> - 52) = 1"
proof -
  from assms(1) have ax: "\<bar>x\<bar> = x" by simp
  have "(2::rat) powi exponent x \<le> x" using exponent_bounds(1) [OF assms(1)] .
  also have "x < 2 powi 53" using assms(2) by simp
  finally have "exponent x < 53"
    using power_int_le_imp_less_exp [of "2::rat" "exponent x" 53] by simp
  then have "0 \<le> 52 - exponent x" by simp
  then obtain k where k: "52 - exponent x = int k" using nonneg_int_cases by blast
  have "(2::rat) powi (52 - exponent x) * 2 powi (exponent x - 52) = 1"
    by (simp add: power_int_add [symmetric])
  then have "2 ^ k * (2::rat) powi (exponent \<bar>x\<bar> - 52) = 1" by (simp add: k ax)
  then show ?thesis ..
qed

lemma on_grid:
  fixes u :: rat
  assumes "2 ^ k * u = 1"
  shows "of_int (N * 2 ^ k) * u = of_int N"
proof -
  have "of_int (N * 2 ^ k) * u = of_int N * (2 ^ k * u)" by simp
  then show ?thesis by (simp only: assms mult_1_right)
qed

lemma float64_le_int:
  assumes "0 < x" and "x \<le> of_int N" and "N < 2 ^ 53"
  shows "float64 x \<le> of_int N"
proof -
  let ?u = "(2::rat) powi (exponent \<bar>x\<bar> - 52)"
  have "(of_int N :: rat) < of_int (2 ^ 53)" using assms(3) by (simp only: of_int_less_iff)
  with assms(2) have "x < 2 ^ 53" by simp
  from grid [OF assms(1) this] obtain k :: nat where k: "2 ^ k * ?u = 1" by blast
  have u: "0 < ?u" by simp
  note Nu = on_grid [OF k, of N]
  have "x \<le> of_int (N * 2 ^ k) * ?u" using assms(2) by (simp only: Nu)
  then have "x / ?u \<le> of_int (N * 2 ^ k)" by (simp only: pos_divide_le_eq [OF u])
  then have "rne (x / ?u) \<le> N * 2 ^ k" by (rule rne_le)
  then have "(of_int (rne (x / ?u)) :: rat) \<le> of_int (N * 2 ^ k)" by (simp only: of_int_le_iff)
  then have "of_int (rne (x / ?u)) * ?u \<le> of_int (N * 2 ^ k) * ?u"
    using u by (simp only: mult_le_cancel_right_pos)
  then have "of_int (rne (x / ?u)) * ?u \<le> of_int N" by (simp only: Nu)
  moreover have "float64 x = of_int (rne (x / ?u)) * ?u"
    using assms(1) by (simp add: float64_def Let_def)
  ultimately show ?thesis by simp
qed

lemma float64_ge_int:
  assumes "0 < x" and "of_int N \<le> x" and "x < 2 ^ 53"
  shows "of_int N \<le> float64 x"
proof -
  let ?u = "(2::rat) powi (exponent \<bar>x\<bar> - 52)"
  from grid [OF assms(1,3)] obtain k :: nat where k: "2 ^ k * ?u = 1" by blast
  have u: "0 < ?u" by simp
  note Nu = on_grid [OF k, of N]
  have "of_int (N * 2 ^ k) * ?u \<le> x" using assms(2) by (simp only: Nu)
  then have "of_int (N * 2 ^ k) \<le> x / ?u" by (simp only: pos_le_divide_eq [OF u])
  then have "N * 2 ^ k \<le> rne (x / ?u)" by (rule rne_ge)
  then have "(of_int (N * 2 ^ k) :: rat) \<le> of_int (rne (x / ?u))" by (simp only: of_int_le_iff)
  then have "of_int (N * 2 ^ k) * ?u \<le> of_int (rne (x / ?u)) * ?u"
    using u by (simp only: mult_le_cancel_right_pos)
  then have "of_int N \<le> of_int (rne (x / ?u)) * ?u" by (simp only: Nu)
  moreover have "float64 x = of_int (rne (x / ?u)) * ?u"
    using assms(1) by (simp add: float64_def Let_def)
  ultimately show ?thesis by simp
qed

lemma float64_of_int:
  assumes "0 \<le> n" and "n < 2 ^ 53"
  shows "float64 (of_int n) = of_int n"
proof (cases "n = 0")
  case True
  then show ?thesis by (simp add: float64_def)
next
  case False
  with assms(1) have pos: "(0::rat) < of_int n" by simp
  have "(of_int n :: rat) < of_int (2 ^ 53)" using assms(2) by (simp only: of_int_less_iff)
  then have lt: "(of_int n :: rat) < 2 ^ 53" by simp
  have "float64 (of_int n) \<le> of_int n"
    by (rule float64_le_int [OF pos _ assms(2)]) simp
  moreover have "of_int n \<le> float64 (of_int n)"
    by (rule float64_ge_int [OF pos _ lt]) simp
  ultimately show ?thesis by simp
qed

lemma float64_pos:
  assumes "0 < x"
  shows "0 < float64 x"
proof -
  let ?u = "(2::rat) powi (exponent \<bar>x\<bar> - 52)"
  from assms have ax: "\<bar>x\<bar> = x" by simp
  have u: "0 < ?u" by simp
  have "?u \<le> 2 powi exponent x" by (simp add: ax power_int_increasing)
  also have "\<dots> \<le> x" by (rule exponent_bounds(1) [OF assms])
  finally have "of_int 1 \<le> x / ?u" using u by (simp add: pos_le_divide_eq)
  then have "1 \<le> rne (x / ?u)" by (rule rne_ge)
  then have "(0::rat) < of_int (rne (x / ?u))" by simp
  then have "0 < of_int (rne (x / ?u)) * ?u" using u by (rule mult_pos_pos)
  then show ?thesis using assms by (simp add: float64_def Let_def)
qed

lemma float64_between:
  assumes "0 \<le> x" and "x \<le> of_int N" and "N < 2 ^ 53"
  shows "0 \<le> float64 x" and "float64 x \<le> of_int N"
proof -
  show "0 \<le> float64 x" using assms(1) by (rule float64_nonneg)
  show "float64 x \<le> of_int N"
  proof (cases "x = 0")
    case True
    with assms(2) show ?thesis by (simp add: float64_def)
  next
    case False
    with assms(1) have "0 < x" by simp
    then show ?thesis using assms(2,3) by (rule float64_le_int)
  qed
qed

lemma round2_bounds:
  assumes "0 \<le> x" and "x \<le> 100"
  shows "0 \<le> round2 x" and "round2 x \<le> 100"
proof -
  let ?y = "float64 (x * 100)"
  let ?n = "round_half_away ?y"
  have "0 \<le> x * 100" and "x * 100 \<le> of_int 10000" using assms by simp_all
  from float64_between [OF this] have y: "0 \<le> ?y" "?y \<le> 10000" by simp_all
  have n0: "0 \<le> ?n" using y(1) by (simp add: round_half_away_def)
  have "?y + 1 / 2 < 10001" using y(2) by simp
  then have "\<lfloor>?y + 1 / 2\<rfloor> < 10001" by (simp add: floor_less_iff)
  then have n1: "?n \<le> 10000" using y(1) by (simp add: round_half_away_def)
  have "(0::rat) \<le> of_int ?n / 100" using n0 by simp
  moreover have "(of_int ?n :: rat) \<le> of_int 10000" using n1 by (simp only: of_int_le_iff)
  then have "(of_int ?n :: rat) / 100 \<le> of_int 100" by simp
  ultimately have "0 \<le> float64 (of_int ?n / 100)" and "float64 (of_int ?n / 100) \<le> of_int 100"
    by (rule float64_between, simp)+
  then show "0 \<le> round2 x" and "round2 x \<le> 100" by (simp_all add: round2_def)
qed

lemma rne_error: "\<bar>of_int (rne y) - y\<bar> \<le> 1 / 2"
proof -
  let ?n = "\<lfloor>y\<rfloor>"
  let ?r = "y - of_int ?n"
  have r: "0 \<le> ?r" "?r < 1" by linarith+
  consider "?r < 1 / 2" | "1 / 2 < ?r" | "?r = 1 / 2" by linarith
  then show ?thesis
  proof cases
    case 1
    then have "rne y = ?n" by (simp add: rne_def Let_def)
    with 1 r show ?thesis by simp
  next
    case 2
    then have "rne y = ?n + 1" by (simp add: rne_def Let_def)
    with 2 r show ?thesis by simp
  next
    case 3
    then have "rne y = ?n \<or> rne y = ?n + 1" by (simp add: rne_def Let_def)
    with 3 show ?thesis by auto
  qed
qed

lemma round_half_away_error: "\<bar>of_int (round_half_away y) - y\<bar> \<le> 1 / 2"
proof (cases "0 \<le> y")
  case True
  have "of_int \<lfloor>y + 1 / 2\<rfloor> \<le> y + 1 / 2" and "y + 1 / 2 < of_int \<lfloor>y + 1 / 2\<rfloor> + 1"
    by linarith+
  then have "\<bar>of_int \<lfloor>y + 1 / 2\<rfloor> - y\<bar> \<le> 1 / 2" by linarith
  with True show ?thesis by (simp add: round_half_away_def)
next
  case False
  have "of_int \<lfloor>- y + 1 / 2\<rfloor> \<le> - y + 1 / 2" and "- y + 1 / 2 < of_int \<lfloor>- y + 1 / 2\<rfloor> + 1"
    by linarith+
  then have "\<bar>- of_int \<lfloor>- y + 1 / 2\<rfloor> - y\<bar> \<le> 1 / 2" by linarith
  with False show ?thesis by (simp add: round_half_away_def)
qed

lemma float64_error:
  assumes "0 \<le> x" and "x < 2 ^ k"
  shows "\<bar>float64 x - x\<bar> \<le> 2 ^ k / 2 ^ 54"
proof (cases "x = 0")
  case True
  then show ?thesis by (simp add: float64_def)
next
  case False
  with assms(1) have pos: "0 < x" by simp
  then have ax: "\<bar>x\<bar> = x" by simp
  let ?u = "(2::rat) powi (exponent x - 52)"
  have u: "0 < ?u" by simp
  have "(2::rat) powi exponent x \<le> x" by (rule exponent_bounds(1) [OF pos])
  also have "x < 2 powi int k" using assms(2) by simp
  finally have "exponent x < int k"
    using power_int_le_imp_less_exp [of "2::rat" "exponent x" "int k"] by simp
  then have "exponent x - 52 \<le> int k - 53" by simp
  then have "?u \<le> 2 powi (int k - 53)" by (simp add: power_int_increasing)
  also have "(2::rat) powi (int k - 53) = 2 ^ k / 2 ^ 53"
    by (simp add: power_int_diff)
  finally have ub: "?u \<le> 2 ^ k / 2 ^ 53" .
  have "float64 x - x = (of_int (rne (x / ?u)) - x / ?u) * ?u"
    using pos u by (simp add: float64_def Let_def ax left_diff_distrib)
  then have "\<bar>float64 x - x\<bar> = \<bar>of_int (rne (x / ?u)) - x / ?u\<bar> * ?u"
    using u by (simp add: abs_mult)
  also have "\<dots> \<le> 1 / 2 * ?u"
    using rne_error [of "x / ?u"] u by (simp only: mult_le_cancel_right_pos)
  also have "\<dots> \<le> 1 / 2 * (2 ^ k / 2 ^ 53)" using ub by simp
  finally show ?thesis by simp
qed

lemma round2_error:
  assumes "0 \<le> x" and "x \<le> 100"
  shows "\<bar>round2 x - x\<bar> \<le> 1 / 200 + 1 / 2 ^ 45"
proof -
  let ?y = "float64 (x * 100)"
  let ?n = "round_half_away ?y"
  have x100: "0 \<le> x * 100" "x * 100 \<le> of_int 10000" using assms by simp_all
  from float64_between [OF this] have y: "0 \<le> ?y" "?y \<le> 10000" by simp_all
  have "x * 100 < 2 ^ 14" using assms(2) by simp
  from float64_error [OF x100(1) this] have e1: "\<bar>?y - x * 100\<bar> \<le> 1 / 2 ^ 40" by simp
  have e2: "\<bar>of_int ?n - ?y\<bar> \<le> 1 / 2" by (rule round_half_away_error)
  have n0: "0 \<le> ?n" using y(1) by (simp add: round_half_away_def)
  have "?y + 1 / 2 < 10001" using y(2) by simp
  then have "\<lfloor>?y + 1 / 2\<rfloor> < 10001" by (simp add: floor_less_iff)
  then have "?n \<le> 10000" using y(1) by (simp add: round_half_away_def)
  then have "(of_int ?n :: rat) \<le> of_int 10000" by (simp only: of_int_le_iff)
  then have n1: "(of_int ?n :: rat) / 100 < 2 ^ 7" by simp
  have "(0::rat) \<le> of_int ?n / 100" using n0 by simp
  from float64_error [OF this n1] have e3: "\<bar>round2 x - of_int ?n / 100\<bar> \<le> 1 / 2 ^ 47"
    by (simp add: round2_def)
  have c1: "\<bar>?y - x * 100\<bar> \<le> 1 / 1099511627776" using e1 by simp
  have c3: "\<bar>round2 x - of_int ?n / 100\<bar> \<le> 1 / 140737488355328" using e3 by simp
  have "\<bar>round2 x - x\<bar> \<le> 1 / 200 + 1 / 35184372088832"
    using c1 e2 c3 by linarith
  then show ?thesis by simp
qed

section \<open>Ordering and scanning\<close>

lemma mset_insert_desc: "mset (insert_desc key x ys) = add_mset x (mset ys)"
  by (induction ys) auto

lemma mset_order_by_desc: "mset (order_by_desc key xs) = mset xs"
  unfolding order_by_desc_def by (induction xs) (auto simp: mset_insert_desc)

lemma set_order_by_desc: "set (order_by_desc key xs) = set xs"
  using mset_order_by_desc [of key xs] by (metis set_mset_mset)

lemma length_order_by_desc: "length (order_by_desc key xs) = length xs"
  using mset_order_by_desc [of key xs] by (metis size_mset)

lemma set_insert_desc: "set (insert_desc key x ys) = insert x (set ys)"
  using mset_insert_desc [of key x ys] by (metis set_mset_add_mset_insert set_mset_mset)

lemma sorted_insert_desc:
  "sorted_wrt (\<lambda>a b. key b \<le> key a) ys \<Longrightarrow> sorted_wrt (\<lambda>a b. key b \<le> key a) (insert_desc key x ys)"
proof (induction ys)
  case Nil
  then show ?case by simp
next
  case (Cons y ys)
  show ?case
  proof (cases "key y \<le> key x")
    case True
    with Cons.prems show ?thesis by auto
  next
    case False
    then have "key x \<le> key y" by simp
    with Cons False show ?thesis by (auto simp: set_insert_desc)
  qed
qed

lemma sorted_order_by_desc: "sorted_wrt (\<lambda>a b. key b \<le> key a) (order_by_desc key xs)"
  unfolding order_by_desc_def by (induction xs) (auto simp: sorted_insert_desc)

lemma scan_team_rows_acc:
  "scan_team_rows rs acc = Inr ms \<Longrightarrow>
     \<exists>ms'. ms = acc @ ms' \<and> list_all2 (\<lambda>r tm. scan_team_row r = Inr tm) rs ms'"
proof (induction rs arbitrary: acc)
  case Nil
  then show ?case by simp
next
  case (Cons r rs)
  from Cons.prems obtain tm where tm: "scan_team_row r = Inr tm"
    and rest: "scan_team_rows rs (acc @ [tm]) = Inr ms"
    by (auto split: sum.splits)
  from Cons.IH [OF rest] obtain ms' where "ms = (acc @ [tm]) @ ms'"
    and "list_all2 (\<lambda>r tm. scan_team_row r = Inr tm) rs ms'" by blast
  with tm show ?case by auto
qed

lemma GetTeamMetrics_rows:
  assumes "GetTeamMetrics ok ds = Inr ms"
  shows "list_all2 (\<lambda>r tm. scan_team_row r = Inr tm) (team_metrics_query ds) ms"
proof -
  from assms have "scan_team_rows (team_metrics_query ds) [] = Inr ms"
    by (auto simp: GetTeamMetrics_def split: if_splits)
  from scan_team_rows_acc [OF this] show ?thesis by simp
qed

lemma scan_team_row_fields:
  assumes "scan_team_row r = Inr tm"
  shows "Team tm = r_team r" "TotalDeployments tm = r_total_deployments r"
    "r_successful_deployments r = Some (SuccessfulDeployments tm)"
    "r_success_rate r = Some (SuccessRate tm)"
    "r_avg_duration r = Some (AvgDurationMinutes tm)"
    "r_deployments_per_day r = Some (DeploymentFrequency tm)"
  using assms
  by (auto simp: scan_team_row_def scan_int_def scan_float_def split: sum.splits option.splits)

lemma team_metrics_query_set:
  "set (team_metrics_query ds) = team_group ds ` team ` set ds"
  by (simp add: team_metrics_query_def set_order_by_desc image_image)

lemma GetTeamMetrics_member:
  assumes "GetTeamMetrics ok ds = Inr ms" and "tm \<in> set ms"
  shows "\<exists>d \<in> set ds. scan_team_row (team_group ds (team d)) = Inr tm"
proof -
  let ?rows = "team_metrics_query ds"
  from assms(2) obtain i where i: "i < length ms" "tm = ms ! i"
    by (auto simp: in_set_conv_nth)
  from GetTeamMetrics_rows [OF assms(1)] i
  have "length ?rows = length ms" and "scan_team_row (?rows ! i) = Inr tm"
    by (simp_all add: list_all2_conv_all_nth)
  moreover from this i have "?rows ! i \<in> set ?rows" by simp
  ultimately show ?thesis by (auto simp: team_metrics_query_set)
qed

lemma successes_bounds:
  "(0::int) \<le> sum_list (map (\<lambda>d. if is_success d then 1 else 0) g)"
  "sum_list (map (\<lambda>d. if is_success d then 1 else (0::int)) g) \<le> int (length g)"
  by (induction g) auto

lemma team_group_scanned:
  assumes "d \<in> set ds" and "scan_team_row (team_group ds (team d)) = Inr tm"
  defines "g \<equiv> filter (\<lambda>x. team x = team d) ds"
  shows "Team tm = team d"
    and "TotalDeployments tm = int (length g)"
    and "0 < TotalDeployments tm"
    and "SuccessfulDeployments tm = sum_list (map (\<lambda>d. if is_success d then 1 else 0) g)"
    and "SuccessRate tm =
           round2 (float64 (float64 (100 * of_int (SuccessfulDeployments tm))
                            / float64 (of_int (TotalDeployments tm))))"
proof -
  have ne: "g \<noteq> []" using assms(1) by (auto simp: g_def filter_empty_conv)
  note f = scan_team_row_fields [OF assms(2)]
  show "Team tm = team d" using f(1) by (simp add: team_group_def Let_def)
  show tot: "TotalDeployments tm = int (length g)"
    using f(2) by (simp add: team_group_def Let_def sql_count_def g_def)
  show "0 < TotalDeployments tm" using tot ne by simp
  show suc: "SuccessfulDeployments tm = sum_list (map (\<lambda>d. if is_success d then 1 else 0) g)"
    using f(3) ne by (simp add: team_group_def Let_def sql_sum_def g_def)
  have "r_success_rate (team_group ds (team d)) =
          sql_round2 (sql_div (Some (100 * of_int (SuccessfulDeployments tm)))
                              (Some (of_int (TotalDeployments tm))))"
    using ne suc tot by (simp add: team_group_def Let_def sql_sum_def sql_count_def g_def)
  with f(4) show "SuccessRate tm =
           round2 (float64 (float64 (100 * of_int (SuccessfulDeployments tm))
                            / float64 (of_int (TotalDeployments tm))))"
    by (auto simp: sql_div_def sql_round2_def split: if_splits)
qed

section \<open>Properties of GetTeamMetrics\<close>

text \<open>
  C7, as the code has it: every team in the result of \<open>GetTeamMetrics\<close> has a
  strictly positive deployment count, so the division of the success rate is never
  by zero. For a team of fewer than \<open>2 ^ 46\<close> deployments, whose counts are exact as
  \<open>DOUBLE\<close>s, the success rate lies between 0 and 100 and is
  \<open>ROUND(100.0 * successful / total, 2)\<close> as the store computes it: the quotient as a
  \<open>DOUBLE\<close>, times 100, rounded to an integer, divided by 100. It is within
  \<open>1 / 200 + 1 / 10 ^ 13\<close> of the exact percentage.
\<close>

theorem team_success_rate:
  assumes "GetTeamMetrics ok ds = Inr ms" and "tm \<in> set ms"
    and "TotalDeployments tm < 2 ^ 46"
  shows "0 < TotalDeployments tm
       \<and> 0 \<le> SuccessRate tm \<and> SuccessRate tm \<le> 100
       \<and> SuccessRate tm =
           round2 (float64 (100 * of_int (SuccessfulDeployments tm) / of_int (TotalDeployments tm)))
       \<and> \<bar>SuccessRate tm - 100 * of_int (SuccessfulDeployments tm) / of_int (TotalDeployments tm)\<bar>
           \<le> 1 / 200 + 1 / 10 ^ 13"
proof -
  from GetTeamMetrics_member [OF assms(1,2)] obtain d where d: "d \<in> set ds"
    and sc: "scan_team_row (team_group ds (team d)) = Inr tm" by blast
  let ?g = "filter (\<lambda>x. team x = team d) ds"
  let ?s = "SuccessfulDeployments tm" and ?t = "TotalDeployments tm"
  note g = team_group_scanned [OF d sc]
  have s0: "0 \<le> ?s" and s1: "?s \<le> ?t"
    using g(2,4) successes_bounds [of ?g] by simp_all
  have "100 * ?s < 2 ^ 53" using s1 assms(3) by simp
  moreover have "0 \<le> 100 * ?s" using s0 by simp
  ultimately have "float64 (of_int (100 * ?s)) = of_int (100 * ?s)" by (rule float64_of_int [rotated])
  then have num: "float64 (100 * of_int ?s) = 100 * of_int ?s" by simp
  have "?t < 2 ^ 53" using assms(3) by simp
  with g(3) have den: "float64 (of_int ?t) = of_int ?t" by (simp add: float64_of_int)
  let ?q = "100 * of_int ?s / (of_int ?t :: rat)"
  have rate: "SuccessRate tm = round2 (float64 ?q)" using g(5) by (simp only: num den)
  have pos: "(0::rat) < of_int ?t" using g(3) by simp
  have q0: "0 \<le> ?q" using s0 pos by simp
  have "(of_int ?s :: rat) \<le> of_int ?t" using s1 by simp
  then have q1: "?q \<le> of_int 100" using pos by (simp add: pos_divide_le_eq)
  from float64_between [OF q0 q1] have f: "0 \<le> float64 ?q" "float64 ?q \<le> 100" by simp_all
  have "?q < 2 ^ 7" using q1 by simp
  from float64_error [OF q0 this] have e1: "\<bar>float64 ?q - ?q\<bar> \<le> 1 / 140737488355328" by simp
  from round2_error [OF f] have e2: "\<bar>round2 (float64 ?q) - float64 ?q\<bar> \<le> 1 / 200 + 1 / 35184372088832"
    by simp
  have "\<bar>round2 (float64 ?q) - ?q\<bar> \<le> 1 / 200 + 1 / 10000000000000"
    using e1 e2 by linarith
  then have acc: "\<bar>SuccessRate tm - ?q\<bar> \<le> 1 / 200 + 1 / 10 ^ 13" by (simp add: rate)
  from round2_bounds [OF f] g(3) rate acc show ?thesis by simp
qed

lemma alpha_beta_metrics: "GetTeamMetrics healthy alpha_beta = Inr [beta_metrics, alpha_metrics]"
  by code_simp

theorem team_success_rate_witness:
  "GetTeamMetrics healthy alpha_beta = Inr [beta_metrics, alpha_metrics]
   \<and> alpha_metrics \<in> set [beta_metrics, alpha_metrics]
   \<and> TotalDeployments alpha_metrics < 2 ^ 46
   \<and> 0 < TotalDeployments alpha_metrics
   \<and> 0 \<le> SuccessRate alpha_metrics \<and> SuccessRate alpha_metrics \<le> 100
   \<and> SuccessRate alpha_metrics =
       round2 (float64 (100 * of_int (SuccessfulDeployments alpha_metrics)
                 / of_int (TotalDeployments alpha_metrics)))
   \<and> \<bar>SuccessRate alpha_metrics
        - 100 * of_int (SuccessfulDeployments alpha_metrics) / of_int (TotalDeployments alpha_metrics)\<bar>
       \<le> 1 / 200 + 1 / 10 ^ 13"
proof -
  have m: "alpha_metrics \<in> set [beta_metrics, alpha_metrics]" by simp
  have t: "TotalDeployments alpha_metrics < 2 ^ 46" by (simp add: alpha_metrics_def)
  from team_success_rate [OF alpha_beta_metrics m t] alpha_beta_metrics m t
  show ?thesis by blast
qed

text \<open>
  With 41 successful deployments of 4000 the exact rate is 1.025, which two-decimal
  rounding takes to 1.03. The \<open>DOUBLE\<close> quotient is just below 1.025, and the store
  returns 1.02.
\<close>

lemma remdups_const:
  "xs \<noteq> [] \<Longrightarrow> \<forall>x \<in> set xs. x = t \<Longrightarrow> remdups xs = [t]"
proof (induction xs)
  case Nil
  then show ?case by simp
next
  case (Cons x xs)
  show ?case
  proof (cases "xs = []")
    case True
    with Cons.prems show ?thesis by simp
  next
    case False
    with Cons have "remdups xs = [t]" by simp
    moreover from False Cons.prems have "x \<in> set xs" by (cases xs) auto
    ultimately show ?thesis by simp
  qed
qed

lemma single_team_rows:
  assumes "ds \<noteq> []" and "\<forall>d \<in> set ds. team d = t"
  shows "team_metrics_query ds = [team_group ds t]"
proof -
  have "remdups (map team ds) = [t]"
    using assms by (intro remdups_const) auto
  then show ?thesis by (simp add: team_metrics_query_def order_by_desc_def)
qed

lemma many_alpha_team: "\<forall>d \<in> set many_alpha. team d = ''alpha''"
  by (auto simp: many_alpha_def dep_def)

lemma many_alpha_length: "length many_alpha = 4000"
  by (simp add: many_alpha_def)

lemma many_alpha_successes:
  "filter is_success many_alpha
     = map (\<lambda>i. dep (replicate (Suc i) (CHR ''s'')) ''alpha'' 0 10 ''success'') [0..<41]"
  by (simp add: many_alpha_def filter_map comp_def is_success_def dep_def)

lemma indicator_length:
  "sum_list (map (\<lambda>d. if P d then 1 else (0::int)) xs) = int (length (filter P xs))"
  by (induction xs) auto

lemma many_alpha_rates:
  "sql_round2 (sql_div (Some 4100) (Some 4000)) = Some (float64 (51 / 50))"
  "sql_round2 (Some (float64 (float64 410 / float64 41))) = Some 10"
  "sql_round2 (sql_div (Some 4000) (Some 7)) = Some (float64 (57143 / 100))"
  by code_simp+

lemma successful_durations:
  "[x. Some x \<leftarrow> map (\<lambda>d. if is_success d then Some (duration_minutes d) else None) g]
     = map duration_minutes (filter is_success g)"
  by (induction g) auto

lemma sql_avg_successes:
  "sql_avg (map (\<lambda>d. if is_success d then Some (duration_minutes d) else None) g) =
     (if filter is_success g = [] then None
      else Some (float64 (float64 (of_int (sum_list (map duration_minutes (filter is_success g))))
                          / float64 (of_int (int (length (filter is_success g)))))))"
  unfolding sql_avg_def successful_durations Let_def by simp

lemma many_alpha_group:
  "team_group many_alpha ''alpha'' =
     \<lparr> r_team = ''alpha'', r_total_deployments = 4000, r_successful_deployments = Some 41,
       r_success_rate = Some (float64 (102 / 100)), r_avg_duration = Some 10,
       r_deployments_per_day = Some (float64 (57143 / 100)) \<rparr>"
proof -
  have g: "filter (\<lambda>d. team d = ''alpha'') many_alpha = many_alpha"
    using many_alpha_team by simp
  have ne: "many_alpha \<noteq> []" using many_alpha_length by auto
  have n: "sql_sum (map (\<lambda>d. if is_success d then 1 else 0) many_alpha) = Some 41"
    using ne by (simp add: sql_sum_def indicator_length many_alpha_successes)
  have "sum_list (map duration_minutes (filter is_success many_alpha)) = 410"
    by (simp add: many_alpha_successes comp_def dep_def sum_list_triv)
  moreover have "length (filter is_success many_alpha) = 41"
    by (simp add: many_alpha_successes)
  ultimately have a: "sql_avg (map (\<lambda>d. if is_success d then Some (duration_minutes d) else None) many_alpha)
      = Some (float64 (float64 410 / float64 41))"
    unfolding sql_avg_successes by auto
  show ?thesis
    unfolding team_group_def Let_def g n a
    by (simp add: sql_count_def many_alpha_length many_alpha_rates)
qed

theorem rate_is_not_decimal_round:
  "GetTeamMetrics healthy many_alpha = Inr [many_alpha_metrics]
   \<and> SuccessRate many_alpha_metrics = float64 (102 / 100)
   \<and> decimal_round2 (100 * of_int (SuccessfulDeployments many_alpha_metrics)
                        / of_int (TotalDeployments many_alpha_metrics)) = 103 / 100
   \<and> float64 (102 / 100) < 103 / 100
   \<and> float64 (102 / 100) \<noteq> float64 (103 / 100)"
proof -
  have ne: "many_alpha \<noteq> []" using many_alpha_length by auto
  have "team_metrics_query many_alpha = [team_group many_alpha ''alpha'']"
    using ne many_alpha_team by (rule single_team_rows)
  then have "GetTeamMetrics healthy many_alpha = Inr [many_alpha_metrics]"
    by (simp add: GetTeamMetrics_def healthy_def many_alpha_group scan_team_row_def
        scan_int_def scan_float_def many_alpha_metrics_def)
  moreover have "SuccessRate many_alpha_metrics = float64 (102 / 100)"
    by (simp add: many_alpha_metrics_def)
  moreover have "decimal_round2 (100 * of_int (SuccessfulDeployments many_alpha_metrics)
                        / of_int (TotalDeployments many_alpha_metrics)) = 103 / 100"
    by code_simp
  moreover have "float64 (102 / 100) < 103 / 100" by code_simp
  moreover have "float64 (102 / 100) \<noteq> float64 (103 / 100)" by code_simp
  ultimately show ?thesis by (intro conjI)
qed

text \<open>
  C9: the sequence returned by \<open>GetTeamMetrics\<close> is ordered by success rate
  descending: of two adjacent elements, the later one has no greater success rate.
\<close>

theorem team_metrics_ordered:
  assumes "GetTeamMetrics ok ds = Inr ms" and "Suc i < length ms"
  shows "SuccessRate (ms ! Suc i) \<le> SuccessRate (ms ! i)"
proof -
  let ?rows = "team_metrics_query ds"
  note rows = GetTeamMetrics_rows [OF assms(1)]
  then have len: "length ?rows = length ms" by (simp add: list_all2_lengthD)
  have "sorted_wrt (\<lambda>a b. r_success_rate b \<le> r_success_rate a) ?rows"
    by (simp add: team_metrics_query_def sorted_order_by_desc)
  then have le: "r_success_rate (?rows ! Suc i) \<le> r_success_rate (?rows ! i)"
    using assms(2) len sorted_wrt_nth_less [of _ ?rows i "Suc i"] by simp
  have "scan_team_row (?rows ! i) = Inr (ms ! i)"
    and "scan_team_row (?rows ! Suc i) = Inr (ms ! Suc i)"
    using rows assms(2) by (simp_all add: list_all2_conv_all_nth)
  then have "r_success_rate (?rows ! i) = Some (SuccessRate (ms ! i))"
    and "r_success_rate (?rows ! Suc i) = Some (SuccessRate (ms ! Suc i))"
    by (simp_all add: scan_team_row_fields)
  with le show ?thesis by simp
qed

theorem team_metrics_ordered_witness:
  "GetTeamMetrics healthy alpha_beta = Inr [beta_metrics, alpha_metrics]
   \<and> Suc 0 < length [beta_metrics, alpha_metrics]
   \<and> SuccessRate ([beta_metrics, alpha_metrics] ! Suc 0) \<le> SuccessRate ([beta_metrics, alpha_metrics] ! 0)"
proof -
  have l: "Suc 0 < length [beta_metrics, alpha_metrics]" by simp
  from team_metrics_ordered [OF alpha_beta_metrics l] alpha_beta_metrics l
  show ?thesis by blast
qed

text \<open>
  C10: when the \<open>deployments\<close> table has no rows and the store executes the query,
  \<open>GetTeamMetrics\<close> returns the empty sequence and no error.
\<close>

theorem team_metrics_empty:
  assumes "ok TeamMetricsQuery"
  shows "GetTeamMetrics ok [] = Inr []"
  using assms by (simp add: GetTeamMetrics_def team_metrics_query_def order_by_desc_def)

theorem team_metrics_empty_witness:
  "healthy TeamMetricsQuery \<and> GetTeamMetrics healthy [] = Inr []"
proof -
  have h: "healthy TeamMetricsQuery" by (simp add: healthy_def)
  from team_metrics_empty [of healthy, OF h] h show ?thesis by blast
qed

lemma team_avg_duration:
  assumes "GetTeamMetrics ok ds = Inr ms" and "tm \<in> set ms"
  defines "succ \<equiv> filter is_success (filter (\<lambda>x. team x = Team tm) ds)"
  shows "succ \<noteq> []"
    and "AvgDurationMinutes tm =
           round2 (float64 (float64 (of_int (sum_list (map duration_minutes succ)))
                            / float64 (of_int (int (length succ)))))"
proof -
  from GetTeamMetrics_member [OF assms(1,2)] obtain d where d: "d \<in> set ds"
    and sc: "scan_team_row (team_group ds (team d)) = Inr tm" by blast
  have t: "Team tm = team d" using team_group_scanned(1) [OF d sc] .
  have "r_avg_duration (team_group ds (team d)) = Some (AvgDurationMinutes tm)"
    using scan_team_row_fields(5) [OF sc] .
  then have *: "sql_round2 (sql_avg (map (\<lambda>d. if is_success d then Some (duration_minutes d) else None)
                  (filter (\<lambda>x. team x = Team tm) ds))) = Some (AvgDurationMinutes tm)"
    by (simp add: team_group_def Let_def t)
  show ne: "succ \<noteq> []"
    using * unfolding sql_avg_successes succ_def sql_round2_def by (auto split: if_splits)
  show "AvgDurationMinutes tm =
           round2 (float64 (float64 (of_int (sum_list (map duration_minutes succ)))
                            / float64 (of_int (int (length succ)))))"
    using * ne unfolding sql_avg_successes succ_def sql_round2_def by (auto split: if_splits)
qed

lemma scan_team_row_error: "scan_team_row r = Inl e \<Longrightarrow> e = ScanFailed"
  by (auto simp: scan_team_row_def scan_int_def scan_float_def split: sum.splits option.splits)

lemma scan_team_rows_fails:
  assumes "r \<in> set rs" and "scan_team_row r = Inl e"
  shows "scan_team_rows rs acc = Inl ScanFailed"
  using assms
  by (induction rs arbitrary: acc) (auto split: sum.splits dest: scan_team_row_error)

lemma no_success_scan_fails:
  assumes "ok TeamMetricsQuery" and "d \<in> set ds"
    and "\<forall>x \<in> set ds. team x = team d \<longrightarrow> \<not> is_success x"
  shows "GetTeamMetrics ok ds = Inl ScanFailed"
proof -
  let ?g = "filter (\<lambda>x. team x = team d) ds"
  have "\<forall>x \<in> set ?g. \<not> is_success x" using assms(3) by simp
  then have "filter is_success ?g = []" unfolding filter_empty_conv .
  then have "sql_avg (map (\<lambda>d. if is_success d then Some (duration_minutes d) else None) ?g) = None"
    unfolding sql_avg_successes by simp
  then have "r_avg_duration (team_group ds (team d)) = None"
    by (simp add: team_group_def Let_def sql_round2_def)
  then have "\<exists>e. scan_team_row (team_group ds (team d)) = Inl e"
    by (auto simp: scan_team_row_def scan_float_def split: sum.splits)
  moreover have "team_group ds (team d) \<in> set (team_metrics_query ds)"
    using assms(2) by (simp add: team_metrics_query_set)
  ultimately have "scan_team_rows (team_metrics_query ds) [] = Inl ScanFailed"
    using scan_team_rows_fails by blast
  then show ?thesis using assms(1) by (simp add: GetTeamMetrics_def)
qed

text \<open>
  C2: the specification has a team with deployments but no successful one still
  returned, with an undefined average. Here \<open>beta\<close> is such a team, and
  \<open>GetTeamMetrics\<close> returns the error \<open>scan failed\<close> and no team at all.
\<close>

theorem mixed_teams_scan_failed:
  "GetTeamMetrics healthy mixed_teams = Inl ScanFailed"
  by code_simp

subsection \<open>The groups partition the rows\<close>

lemma indicator_sum_absent:
  "x \<notin> set ts \<Longrightarrow> sum_list (map (\<lambda>t. if x = t then 1 else (0::int)) ts) = 0"
  by (induction ts) auto

lemma indicator_sum:
  "distinct ts \<Longrightarrow> x \<in> set ts \<Longrightarrow> sum_list (map (\<lambda>t. if x = t then 1 else (0::int)) ts) = 1"
  by (induction ts) (auto simp: indicator_sum_absent)

lemma group_counts_sum:
  "distinct ts \<Longrightarrow> f ` set ds \<subseteq> set ts \<Longrightarrow>
     sum_list (map (\<lambda>t. int (length (filter (\<lambda>d. f d = t) ds))) ts) = int (length ds)"
proof (induction ds)
  case Nil
  then show ?case by simp
next
  case (Cons d ds)
  have "sum_list (map (\<lambda>t. int (length (filter (\<lambda>x. f x = t) (d # ds)))) ts)
      = sum_list (map (\<lambda>t. (if f d = t then 1 else 0) + int (length (filter (\<lambda>x. f x = t) ds))) ts)"
    by (rule arg_cong [where f = sum_list], rule map_cong) auto
  also have "\<dots> = sum_list (map (\<lambda>t. if f d = t then 1 else 0) ts)
                  + sum_list (map (\<lambda>t. int (length (filter (\<lambda>x. f x = t) ds))) ts)"
    by (simp add: sum_list_addf)
  also have "\<dots> = 1 + int (length ds)"
    using Cons by (simp add: indicator_sum)
  finally show ?case by simp
qed

lemma total_deployments_sum:
  assumes "GetTeamMetrics ok ds = Inr ms"
  shows "sum_list (map TotalDeployments ms) = int (length ds)"
proof -
  let ?rows = "team_metrics_query ds"
  note rows = GetTeamMetrics_rows [OF assms]
  have "map TotalDeployments ms = map r_total_deployments ?rows"
    using rows by (induction rule: list_all2_induct) (auto simp: scan_team_row_fields)
  then have "sum_list (map TotalDeployments ms) = sum_mset (image_mset r_total_deployments (mset ?rows))"
    by (metis mset_map sum_mset_sum_list)
  also have "\<dots> = sum_list (map r_total_deployments (map (team_group ds) (remdups (map team ds))))"
    by (metis team_metrics_query_def mset_order_by_desc mset_map sum_mset_sum_list)
  also have "\<dots> = sum_list (map (\<lambda>t. int (length (filter (\<lambda>d. team d = t) ds))) (remdups (map team ds)))"
    by (simp add: comp_def team_group_def Let_def sql_count_def)
  also have "\<dots> = int (length ds)"
    by (rule group_counts_sum) auto
  finally show ?thesis .
qed

text \<open>
  C8: the specification has the totals of the result add up to the number of rows,
  for every non-empty table. On a table of one failed deployment there is no result
  to add up: \<open>GetTeamMetrics\<close> returns the error \<open>scan failed\<close>.
\<close>

theorem only_failed_no_totals:
  "only_failed \<noteq> [] \<and> int (length only_failed) = 1
   \<and> GetTeamMetrics healthy only_failed = Inl ScanFailed"
  by code_simp

section \<open>Properties of GetDailyMetrics\<close>

lemma scan_daily_rows_length:
  "scan_daily_rows rs acc = Inr ms \<Longrightarrow> length ms = length acc + length rs"
  by (induction rs arbitrary: acc) (auto split: sum.splits)

lemma daily_metrics_query_empty:
  "daily_metrics_query p today days ds = [] \<longleftrightarrow> (\<forall>d \<in> set ds. \<not> in_window p today days d)"
proof -
  let ?w = "filter (in_window p today days) ds"
  let ?rows = "map (daily_group ?w) (remdups (map (\<lambda>d. (date_trunc_day (timestamp d), team d)) ?w))"
  have "length (daily_metrics_query p today days ds) = length ?rows"
    by (simp add: daily_metrics_query_def Let_def length_order_by_desc)
  moreover have "?rows = [] \<longleftrightarrow> ?w = []" by simp
  ultimately have "daily_metrics_query p today days ds = [] \<longleftrightarrow> ?w = []"
    by (simp only: length_0_conv [symmetric])
  then show ?thesis by (simp only: filter_empty_conv)
qed

text \<open>
  C5, as the code has it: when the store executes the query, \<open>GetDailyMetrics\<close>
  returns the empty sequence and no error exactly when no deployment that passes the
  team filter has a timestamp at or after midnight of \<open>CURRENT_DATE - days\<close>. The
  window has no upper end: with \<open>days = 0\<close> the deployments of today and of any later
  day are inside it.
\<close>

theorem daily_metrics_empty:
  assumes "ok (DailyMetricsQuery (if team_arg \<noteq> [] then Some team_arg else None) days)"
  shows "GetDailyMetrics ok today ds team_arg days = Inr [] \<longleftrightarrow>
           (\<forall>d \<in> set ds. (team_arg = [] \<or> team d = team_arg)
                \<longrightarrow> timestamp d < (today - days) * usec_per_day)"
proof -
  let ?p = "if team_arg \<noteq> [] then Some team_arg else None"
  let ?rows = "daily_metrics_query ?p today days ds"
  have run: "GetDailyMetrics ok today ds team_arg days = scan_daily_rows ?rows []"
    using assms by (simp add: GetDailyMetrics_def Let_def)
  have "scan_daily_rows ?rows [] = Inr [] \<longleftrightarrow> ?rows = []"
  proof
    assume "scan_daily_rows ?rows [] = Inr []"
    from scan_daily_rows_length [OF this] show "?rows = []" by simp
  next
    assume "?rows = []"
    then show "scan_daily_rows ?rows [] = Inr []" by simp
  qed
  also have "\<dots> \<longleftrightarrow> (\<forall>d \<in> set ds. \<not> in_window ?p today days d)"
    by (rule daily_metrics_query_empty)
  also have "\<dots> \<longleftrightarrow> (\<forall>d \<in> set ds. (team_arg = [] \<or> team d = team_arg)
                \<longrightarrow> timestamp d < (today - days) * usec_per_day)"
    by (auto simp: in_window_def)
  finally show ?thesis using run by simp
qed

theorem daily_metrics_empty_witness:
  "healthy (DailyMetricsQuery (if ([]::string) \<noteq> [] then Some [] else None) 0)
   \<and> old_deployment \<noteq> []
   \<and> GetDailyMetrics healthy 100 old_deployment [] 0 = Inr []"
proof -
  have h: "healthy (DailyMetricsQuery (if ([]::string) \<noteq> [] then Some [] else None) 0)"
    by (simp add: healthy_def)
  have n: "old_deployment \<noteq> []" by (simp add: old_deployment_def)
  have old: "\<forall>d \<in> set old_deployment.
         (([]::string) = [] \<or> team d = []) \<longrightarrow> timestamp d < (100 - 0) * usec_per_day"
    by (simp add: old_deployment_def dep_def usec_per_day_def)
  from daily_metrics_empty [of healthy "[]" 0 100 old_deployment, OF h] old
  have "GetDailyMetrics healthy 100 old_deployment [] 0 = Inr []"
    by (rule iffD2)
  with h n show ?thesis by (intro conjI)
qed

text \<open>
  With \<open>days = 0\<close> on day 100, a deployment made on day 100 is returned, and so is
  one made on day 101, after the whole trailing window.
\<close>

theorem days_zero_not_empty:
  "GetDailyMetrics healthy 100 today_deployment [] 0 =
     Inr [\<lparr> Date = 100, DailyTeam = ''alpha'', Deployments = 1, Successful = 1, AvgDuration = 10 \<rparr>]
   \<and> GetDailyMetrics healthy 100 tomorrow_deployment [] 0 =
     Inr [\<lparr> Date = 101, DailyTeam = ''alpha'', Deployments = 1, Successful = 1, AvgDuration = 10 \<rparr>]"
  by code_simp

section \<open>The days parameter at the boundary\<close>

lemma digits_non_digit: "\<exists>c \<in> set cs. digit c = None \<Longrightarrow> digits cs n = None"
  by (induction cs arbitrary: n) (auto split: option.splits)

lemma Atoi_non_numeric:
  assumes "unsigned s = [] \<or> (\<exists>c \<in> set (unsigned s). digit c = None)"
  shows "Atoi s = None"
proof (cases "unsigned s = []")
  case True
  then show ?thesis by (simp add: Atoi_def Let_def)
next
  case False
  with assms have "digits (unsigned s) 0 = None" by (simp add: digits_non_digit)
  then show ?thesis by (simp add: Atoi_def Let_def)
qed

text \<open>
  C6, as the code has it: the handler parses \<open>days\<close> with \<open>Atoi\<close> and does not
  look at its sign. An absent parameter, and a text that is empty after its sign or
  has a character that is not a decimal digit, gives 30, at the boundary; every
  integer that \<open>Atoi\<close> accepts is passed to \<open>GetDailyMetrics\<close> unchanged.
\<close>

theorem days_boundary:
  "getDailyMetrics_days None = 30
   \<and> (unsigned s = [] \<or> (\<exists>c \<in> set (unsigned s). digit c = None)
        \<longrightarrow> getDailyMetrics_days (Some s) = 30)
   \<and> (Atoi s = Some n \<longrightarrow> getDailyMetrics_days (Some s) = n)
   \<and> getDailyMetrics ok today ds team_q days_q =
       (case GetDailyMetrics ok today ds (DefaultQuery team_q []) (getDailyMetrics_days days_q) of
          Inl e \<Rightarrow> StatusInternalServerError e
        | Inr metrics \<Rightarrow> StatusOK metrics)"
proof -
  have "getDailyMetrics_days None = 30"
    by (simp add: getDailyMetrics_days_def DefaultQuery_def) code_simp
  moreover have "unsigned s = [] \<or> (\<exists>c \<in> set (unsigned s). digit c = None)
        \<longrightarrow> getDailyMetrics_days (Some s) = 30"
    using Atoi_non_numeric [of s] by (auto simp: getDailyMetrics_days_def DefaultQuery_def)
  moreover have "Atoi s = Some n \<longrightarrow> getDailyMetrics_days (Some s) = n"
    by (simp add: getDailyMetrics_days_def DefaultQuery_def)
  ultimately show ?thesis by (simp add: getDailyMetrics_def Let_def)
qed

theorem days_boundary_witness:
  "(\<exists>c \<in> set (unsigned ''abc''). digit c = None)
   \<and> getDailyMetrics_days (Some ''abc'') = 30
   \<and> Atoi ''-5'' = Some (- 5)
   \<and> getDailyMetrics_days (Some ''-5'') = - 5"
proof -
  have a: "\<exists>c \<in> set (unsigned ''abc''). digit c = None" by code_simp
  have b: "Atoi ''-5'' = Some (- 5)" by code_simp
  from a have "unsigned ''abc'' = [] \<or> (\<exists>c \<in> set (unsigned ''abc''). digit c = None)" ..
  with days_boundary [of "''abc''", THEN conjunct2, THEN conjunct1]
  have c: "getDailyMetrics_days (Some ''abc'') = 30" by (rule mp)
  from days_boundary [of "''-5''" "- 5", THEN conjunct2, THEN conjunct2, THEN conjunct1] b
  have d: "getDailyMetrics_days (Some ''-5'') = - 5" by (rule mp)
  from a c b d show ?thesis by (intro conjI)
qed

text \<open>
  The values \<open>0\<close> and \<open>-5\<close> of the parameter reach \<open>GetDailyMetrics\<close> as they are.
\<close>

theorem non_positive_days_reach_query:
  "getDailyMetrics_days (Some ''0'') = 0 \<and> getDailyMetrics_days (Some ''-5'') = - 5"
  by code_simp

section \<open>Properties of aggregateMetrics\<close>

lemma mset_arrange: "mset (arrange p rows) = mset rows"
proof (cases "sort p = [0..<length rows]")
  case True
  then have "mset p = mset [0..<length rows]" by (metis mset_sort)
  then have "mset (map (\<lambda>i. rows ! i) p) = mset (map (\<lambda>i. rows ! i) [0..<length rows])"
    by (simp only: mset_map)
  also have "\<dots> = mset rows" by (simp only: map_nth)
  finally show ?thesis using True by (simp add: arrange_def)
next
  case False
  then show ?thesis by (simp add: arrange_def)
qed

lemma set_arrange: "set (arrange p rows) = set rows"
  using mset_arrange [of p rows] by (metis set_mset_mset)

lemma daily_team_summary_rows:
  "mset (daily_team_summary_query p ds) =
     image_mset (summary_group ds)
       (mset (remdups (map (\<lambda>d. (date_trunc_day (timestamp d), team d)) ds)))"
  by (simp add: daily_team_summary_query_def mset_arrange)

lemma team_rankings_rows:
  "mset (team_rankings_query p ds) = mset (team_rankings_query q ds)"
  by (simp add: team_rankings_query_def Let_def mset_arrange)

lemma aggregateMetrics_cases:
  "aggregateMetrics ok lay s =
     (if \<not> ok CreateDailyTeamSummary then (Some AggregationFailed, s)
      else if \<not> ok CreateTeamRankings
        then (Some AggregationFailed,
              s\<lparr>daily_team_summary :=
                  Some (daily_team_summary_query (lay CreateDailyTeamSummary) (deployments s))\<rparr>)
      else (None,
            s\<lparr>daily_team_summary :=
                Some (daily_team_summary_query (lay CreateDailyTeamSummary) (deployments s)),
              team_rankings :=
                Some (team_rankings_query (lay CreateTeamRankings) (deployments s))\<rparr>))"
  by (simp add: aggregateMetrics_def Exec_def)

text \<open>
  C3, as the code has it: a cycle that fails reports the failure and leaves
  \<open>deployments\<close> and \<open>team_rankings\<close> as they were. \<open>daily_team_summary\<close> is as it
  was only when its own statement failed: when that statement succeeded and the
  next one failed, it has already been replaced. Each statement is atomic, the cycle
  is not.
\<close>

theorem failed_cycle:
  assumes "aggregateMetrics ok lay s = (Some e, s')"
  shows "e = AggregationFailed
       \<and> deployments s' = deployments s
       \<and> team_rankings s' = team_rankings s
       \<and> daily_team_summary s' =
           (if ok CreateDailyTeamSummary
            then Some (daily_team_summary_query (lay CreateDailyTeamSummary) (deployments s))
            else daily_team_summary s)"
  using assms unfolding aggregateMetrics_cases by (auto split: if_splits)

theorem failed_cycle_witness:
  "aggregateMetrics rankings_fail single stale =
     (Some AggregationFailed,
      stale\<lparr>daily_team_summary :=
              Some (daily_team_summary_query (single CreateDailyTeamSummary) (deployments stale))\<rparr>)
   \<and> team_rankings
        (stale\<lparr>daily_team_summary :=
                Some (daily_team_summary_query (single CreateDailyTeamSummary) (deployments stale))\<rparr>)
       = team_rankings stale"
proof -
  have r: "aggregateMetrics rankings_fail single stale =
     (Some AggregationFailed,
      stale\<lparr>daily_team_summary :=
              Some (daily_team_summary_query (single CreateDailyTeamSummary) (deployments stale))\<rparr>)"
    by (simp add: aggregateMetrics_cases rankings_fail_def)
  from failed_cycle [OF r] r show ?thesis by simp
qed

text \<open>
  A cycle that fails on its second statement: the failure is reported, and
  \<open>daily_team_summary\<close> is no longer the table of before the cycle.
\<close>

theorem failed_cycle_partial:
  "fst (aggregateMetrics rankings_fail single stale) = Some AggregationFailed
   \<and> daily_team_summary stale = Some []
   \<and> daily_team_summary (snd (aggregateMetrics rankings_fail single stale)) =
       Some [\<lparr> s_date = 0, s_team = ''alpha'', s_total_deployments = 1,
               s_successful_deployments = 0, s_avg_duration_minutes = Some 10 \<rparr>]"
  by code_simp

text \<open>
  C4, as the code has it: after a cycle that succeeded, a second cycle on the same
  raw data that succeeds leaves \<open>deployments\<close> as it was and gives both derived
  tables the same rows, each as many times, as the first cycle did. The order of the
  rows is the store's choice at each execution, so the tables of the two cycles are
  equal as collections of rows and need not be identical row by row.
\<close>

theorem aggregate_twice:
  assumes "aggregateMetrics ok1 lay1 s = (None, s1)"
    and "aggregateMetrics ok2 lay2 s1 = (None, s2)"
  shows "deployments s2 = deployments s1
       \<and> map_option mset (daily_team_summary s2) = map_option mset (daily_team_summary s1)
       \<and> map_option mset (team_rankings s2) = map_option mset (team_rankings s1)
       \<and> daily_team_summary s2 \<noteq> None \<and> team_rankings s2 \<noteq> None"
proof -
  from assms(1) have s1: "s1 = s\<lparr>daily_team_summary :=
                Some (daily_team_summary_query (lay1 CreateDailyTeamSummary) (deployments s)),
              team_rankings :=
                Some (team_rankings_query (lay1 CreateTeamRankings) (deployments s))\<rparr>"
    unfolding aggregateMetrics_cases by (auto split: if_splits)
  from assms(2) have s2: "s2 = s1\<lparr>daily_team_summary :=
                Some (daily_team_summary_query (lay2 CreateDailyTeamSummary) (deployments s1)),
              team_rankings :=
                Some (team_rankings_query (lay2 CreateTeamRankings) (deployments s1))\<rparr>"
    unfolding aggregateMetrics_cases by (auto split: if_splits)
  have d: "deployments s1 = deployments s" by (simp add: s1)
  have "mset (daily_team_summary_query (lay2 CreateDailyTeamSummary) (deployments s))
      = mset (daily_team_summary_query (lay1 CreateDailyTeamSummary) (deployments s))"
    by (simp only: daily_team_summary_rows)
  moreover have "mset (team_rankings_query (lay2 CreateTeamRankings) (deployments s))
      = mset (team_rankings_query (lay1 CreateTeamRankings) (deployments s))"
    by (rule team_rankings_rows)
  ultimately show ?thesis by (simp add: s2 d) (simp add: s1)
qed

theorem aggregate_twice_witness:
  "aggregateMetrics healthy forward fresh = (None, snd (aggregateMetrics healthy forward fresh))
   \<and> aggregateMetrics healthy backward (snd (aggregateMetrics healthy forward fresh))
       = (None, snd (aggregateMetrics healthy backward (snd (aggregateMetrics healthy forward fresh))))
   \<and> map_option mset
        (daily_team_summary
          (snd (aggregateMetrics healthy backward (snd (aggregateMetrics healthy forward fresh)))))
       = map_option mset (daily_team_summary (snd (aggregateMetrics healthy forward fresh)))
   \<and> map_option mset
        (team_rankings
          (snd (aggregateMetrics healthy backward (snd (aggregateMetrics healthy forward fresh)))))
       = map_option mset (team_rankings (snd (aggregateMetrics healthy forward fresh)))"
proof -
  let ?s1 = "snd (aggregateMetrics healthy forward fresh)"
  let ?s2 = "snd (aggregateMetrics healthy backward ?s1)"
  have a: "aggregateMetrics healthy forward fresh = (None, ?s1)"
    by (simp add: aggregateMetrics_cases healthy_def)
  have b: "aggregateMetrics healthy backward ?s1 = (None, ?s2)"
    by (simp add: aggregateMetrics_cases healthy_def)
  from aggregate_twice [OF a b] a b show ?thesis by (intro conjI) simp_all
qed

text \<open>
  Two cycles on the same raw data, both successful, in which the store emits the two
  groups in opposite orders: the rows of \<open>daily_team_summary\<close> are the same and their
  order is not.
\<close>

theorem aggregate_twice_order:
  "fst (aggregateMetrics healthy forward fresh) = None
   \<and> fst (aggregateMetrics healthy backward (snd (aggregateMetrics healthy forward fresh))) = None
   \<and> daily_team_summary (snd (aggregateMetrics healthy forward fresh)) =
       Some [\<lparr> s_date = 0, s_team = ''alpha'', s_total_deployments = 3,
               s_successful_deployments = 2, s_avg_duration_minutes = Some 20 \<rparr>,
             \<lparr> s_date = 0, s_team = ''beta'', s_total_deployments = 1,
               s_successful_deployments = 1, s_avg_duration_minutes = Some 5 \<rparr>]
   \<and> daily_team_summary
        (snd (aggregateMetrics healthy backward (snd (aggregateMetrics healthy forward fresh)))) =
       Some [\<lparr> s_date = 0, s_team = ''beta'', s_total_deployments = 1,
               s_successful_deployments = 1, s_avg_duration_minutes = Some 5 \<rparr>,
             \<lparr> s_date = 0, s_team = ''alpha'', s_total_deployments = 3,
               s_successful_deployments = 2, s_avg_duration_minutes = Some 20 \<rparr>]"
  by code_simp

section \<open>Ranks in \<open>team_rankings\<close>\<close>

lemma length_filter_mset_eq:
  "mset xs = mset ys \<Longrightarrow> length (filter P xs) = length (filter P ys)"
  by (metis mset_filter size_mset)

lemma sql_rank_sorted:
  fixes ks :: "'k::linorder list"
  assumes "sorted_wrt (\<lambda>a b. b \<le> a) ks" and "i < length ks"
  shows "sql_rank ks i = 1 + int (length (filter (\<lambda>k. ks ! i < k) ks))"
proof -
  have before: "\<forall>k \<in> set (take i ks). ks ! i \<le> k"
  proof
    fix k assume "k \<in> set (take i ks)"
    then obtain j where j: "j < i" "k = ks ! j"
      using assms(2) by (auto simp: in_set_conv_nth)
    with assms sorted_wrt_nth_less [of "\<lambda>a b. b \<le> a" ks j i]
    show "ks ! i \<le> k" by simp
  qed
  have after: "\<forall>k \<in> set (drop i ks). k \<le> ks ! i"
  proof
    fix k assume "k \<in> set (drop i ks)"
    then obtain j where "j < length ks - i" "k = ks ! (i + j)"
      using assms(2) by (auto simp: in_set_conv_nth)
    then have j: "i + j < length ks" "k = ks ! (i + j)" by simp_all
    show "k \<le> ks ! i"
    proof (cases "j = 0")
      case True
      with j show ?thesis by simp
    next
      case False
      with j assms(1) sorted_wrt_nth_less [of "\<lambda>a b. b \<le> a" ks i "i + j"]
      show ?thesis by simp
    qed
  qed
  have "filter (\<lambda>k. ks ! i < k) ks
      = filter (\<lambda>k. ks ! i < k) (take i ks) @ filter (\<lambda>k. ks ! i < k) (drop i ks)"
    by (metis append_take_drop_id filter_append)
  moreover have "filter (\<lambda>k. ks ! i < k) (drop i ks) = []"
    using after by (auto simp: filter_empty_conv)
  moreover have "filter (\<lambda>k. ks ! i < k) (take i ks) = filter (\<lambda>k. k \<noteq> ks ! i) (take i ks)"
    using before by (intro filter_cong) auto
  ultimately show ?thesis by (simp add: sql_rank_def)
qed

lemma map_fst_rank_over: "map fst (rank_over key rows) = order_by_desc key rows"
  by (simp add: rank_over_def Let_def comp_def map_nth)

lemma mset_fst_rank_over: "mset (map fst (rank_over key rows)) = mset rows"
  by (simp add: map_fst_rank_over mset_order_by_desc)

lemma rank_over_member:
  assumes "(r, n) \<in> set (rank_over key rows)"
  shows "r \<in> set rows"
    and "n = 1 + int (length (filter (\<lambda>x. key r < key x) rows))"
proof -
  let ?w = "order_by_desc key rows"
  from assms obtain i where i: "i < length ?w" "r = ?w ! i" "n = sql_rank (map key ?w) i"
    by (auto simp: rank_over_def Let_def)
  then show "r \<in> set rows" using set_order_by_desc [of key rows] nth_mem by blast
  have "sorted_wrt (\<lambda>a b. b \<le> a) (map key ?w)"
    using sorted_order_by_desc [of key rows] by (simp add: sorted_wrt_map)
  from sql_rank_sorted [OF this] i
  have "n = 1 + int (length (filter (\<lambda>k. key r < k) (map key ?w)))" by simp
  also have "length (filter (\<lambda>k. key r < k) (map key ?w)) = length (filter (\<lambda>x. key r < key x) ?w)"
    by (simp add: filter_map comp_def)
  also have "\<dots> = length (filter (\<lambda>x. key r < key x) rows)"
    by (rule length_filter_mset_eq) (rule mset_order_by_desc)
  finally show "n = 1 + int (length (filter (\<lambda>x. key r < key x) rows))" .
qed

lemma success_key_value:
  assumes "t \<in> set (map team ds)"
  shows "success_key ds t =
           Some (float64
             (float64 (of_int (sql_count (filter is_success (filter (\<lambda>d. team d = t) ds))) * 100)
              / float64 (of_int (sql_count (filter (\<lambda>d. team d = t) ds)))))"
proof -
  from assms have "filter (\<lambda>d. team d = t) ds \<noteq> []"
    by (auto simp: filter_empty_conv)
  then have "0 < (of_int (sql_count (filter (\<lambda>d. team d = t) ds)) :: rat)"
    by (simp add: sql_count_def)
  then have "0 < float64 (of_int (sql_count (filter (\<lambda>d. team d = t) ds)))"
    by (rule float64_pos)
  then show ?thesis by (simp add: success_key_def Let_def sql_div_def)
qed

lemma team_rankings_teams:
  "mset (map k_team (team_rankings_query p ds)) = mset (remdups (map team ds))"
proof -
  let ?groups = "remdups (map team ds)"
  let ?w1 = "rank_over (success_key ds) ?groups"
  let ?w2 = "rank_over (\<lambda>(t, sr). velocity_key ds t) ?w1"
  let ?rows = "map (\<lambda>((t, sr), vr). \<lparr> k_team = t, success_rank = sr, velocity_rank = vr \<rparr>) ?w2"
  have "mset (map k_team (team_rankings_query p ds)) = image_mset k_team (mset (arrange p ?rows))"
    by (simp add: team_rankings_query_def Let_def)
  also have "\<dots> = mset (map k_team ?rows)" by (simp only: mset_arrange mset_map)
  also have "map k_team ?rows = map fst (map fst ?w2)"
    by (simp add: comp_def case_prod_beta)
  also have "mset (map fst (map fst ?w2)) = image_mset fst (mset (map fst ?w2))"
    by (simp only: mset_map)
  also have "\<dots> = image_mset fst (mset ?w1)" by (simp only: mset_fst_rank_over)
  also have "\<dots> = mset (map fst ?w1)" by (simp only: mset_map)
  also have "\<dots> = mset ?groups" by (rule mset_fst_rank_over)
  finally show ?thesis .
qed

lemma team_rankings_row:
  assumes "r \<in> set (team_rankings_query p ds)"
  shows "success_rank r =
           1 + int (length (filter (\<lambda>t. success_key ds (k_team r) < success_key ds t)
                                   (remdups (map team ds))))
       \<and> velocity_rank r =
           1 + int (length (filter (\<lambda>t. velocity_key ds (k_team r) < velocity_key ds t)
                                   (remdups (map team ds))))"
proof -
  let ?groups = "remdups (map team ds)"
  let ?w1 = "rank_over (success_key ds) ?groups"
  let ?vk = "\<lambda>(t, sr). velocity_key ds t"
  let ?w2 = "rank_over ?vk ?w1"
  from assms obtain t sr vr where m2: "((t, sr), vr) \<in> set ?w2"
    and r: "r = \<lparr> k_team = t, success_rank = sr, velocity_rank = vr \<rparr>"
    by (auto simp: team_rankings_query_def Let_def set_arrange)
  from rank_over_member [OF m2] have m1: "(t, sr) \<in> set ?w1"
    and vr: "vr = 1 + int (length (filter (\<lambda>x. ?vk (t, sr) < ?vk x) ?w1))" by simp_all
  from rank_over_member [OF m1] have t: "t \<in> set ?groups"
    and sr: "sr = 1 + int (length (filter (\<lambda>x. success_key ds t < success_key ds x) ?groups))"
    by simp_all
  have "length (filter (\<lambda>x. ?vk (t, sr) < ?vk x) ?w1)
      = length (filter (\<lambda>t'. velocity_key ds t < velocity_key ds t') (map fst ?w1))"
    by (simp add: filter_map comp_def case_prod_beta)
  also have "\<dots> = length (filter (\<lambda>t'. velocity_key ds t < velocity_key ds t') ?groups)"
    by (rule length_filter_mset_eq) (rule mset_fst_rank_over)
  finally have "vr = 1 + int (length (filter (\<lambda>t'. velocity_key ds t < velocity_key ds t') ?groups))"
    using vr by simp
  with sr r show ?thesis by simp
qed

text \<open>
  C1, as the code has it: \<open>team_rankings\<close> has one row for each team of
  \<open>deployments\<close>, and ranks the teams with \<open>RANK()\<close>, by success rate descending and
  by deployment count descending. The rank of a team is one more than the number of
  teams with a strictly greater value: tied teams share a rank, and the rank after a
  tie skips the tied teams (1, 1, 3), so there are gaps.
\<close>

theorem team_rankings_rank:
  "mset (map k_team (team_rankings_query p ds)) = mset (remdups (map team ds))
   \<and> (\<forall>r \<in> set (team_rankings_query p ds).
         success_rank r =
           1 + int (length (filter (\<lambda>t. success_key ds (k_team r) < success_key ds t)
                                   (remdups (map team ds))))
       \<and> velocity_rank r =
           1 + int (length (filter (\<lambda>t. velocity_key ds (k_team r) < velocity_key ds t)
                                   (remdups (map team ds)))))"
  using team_rankings_teams team_rankings_row by blast

theorem team_rankings_rank_witness:
  "mset (map k_team (team_rankings_query [0, 1, 2] tied_teams)) = mset (remdups (map team tied_teams))
   \<and> c_row \<in> set (team_rankings_query [0, 1, 2] tied_teams)
   \<and> success_rank c_row =
         1 + int (length (filter (\<lambda>t. success_key tied_teams (k_team c_row) < success_key tied_teams t)
                                 (remdups (map team tied_teams))))
   \<and> velocity_rank c_row =
         1 + int (length (filter (\<lambda>t. velocity_key tied_teams (k_team c_row) < velocity_key tied_teams t)
                                 (remdups (map team tied_teams))))"
proof -
  have m: "c_row \<in> set (team_rankings_query [0, 1, 2] tied_teams)" by code_simp
  note t = team_rankings_rank [of "[0, 1, 2]" tied_teams]
  from t [THEN conjunct2, THEN bspec, OF m] t [THEN conjunct1] m
  show ?thesis by (intro conjI) simp_all
qed

text \<open>
  Teams a and b tie on both keys and c comes next: \<open>RANK()\<close> gives c the rank 3
  where the dense rank is 2.
\<close>

theorem rank_is_not_dense:
  "team_rankings_query [0, 1, 2] tied_teams =
     [\<lparr> k_team = ''a'', success_rank = 1, velocity_rank = 1 \<rparr>,
      \<lparr> k_team = ''b'', success_rank = 1, velocity_rank = 1 \<rparr>,
      \<lparr> k_team = ''c'', success_rank = 3, velocity_rank = 3 \<rparr>]
   \<and> dense_rank (map (success_key tied_teams) [''a'', ''b'', ''c'']) (success_key tied_teams ''c'') = 2
   \<and> dense_rank (map (velocity_key tied_teams) [''a'', ''b'', ''c'']) (velocity_key tied_teams ''c'') = 2"
  by code_simp

end
